theory Spec2Isabelle
  imports Complex_Main "HOL-Library.Monad_Syntax"
begin

section \<open>Compound clouds: the data model\<close>

text \<open>
  The development embeds the numerical core of
  \<^verbatim>\<open>src/microbe_stage/compound_cloud_system.cpp\<close>: the accessors of
  \<^verbatim>\<open>CompoundCloudComponent\<close>, and \<^verbatim>\<open>Run\<close> (offset rebasing and grid
  shifting), \<^verbatim>\<open>CreateVelocityField\<close>, \<^verbatim>\<open>diffuse\<close> and \<^verbatim>\<open>advect\<close> of
  \<^verbatim>\<open>CompoundCloudSystem\<close>; and, from \<^verbatim>\<open>src/ThriveGame.cpp\<close>, the registration of
  the accessors as script methods.

  Conventions of the embedding.
  \<^item> A C++ \<^verbatim>\<open>float\<close> is a \<^typ>\<open>real\<close>; NaN and the infinities are outside the
    model. In the simulation steps (\<^verbatim>\<open>CreateVelocityField\<close>, \<^verbatim>\<open>diffuse\<close>,
    \<^verbatim>\<open>advect\<close>) and in the comparisons of \<^verbatim>\<open>Run\<close> the arithmetic is exact. In
    \<^verbatim>\<open>takeCompound\<close> and \<^verbatim>\<open>amountAvailable\<close>, which cut an integer out of a float
    product, every float operation rounds its exact result to binary32
    (\<open>round32\<close>), and a conversion of a float to \<^verbatim>\<open>int\<close> is defined only when the
    truncated value fits 32 bits (\<open>f2i\<close>).
  \<^item> A C++ \<^verbatim>\<open>int\<close> is an unbounded \<^typ>\<open>int\<close> (but for the range check of \<open>f2i\<close>);
    \<^verbatim>\<open>width\<close> and \<^verbatim>\<open>height\<close>, the sizes of the vectors, are naturals. Integer
    division truncates towards zero (\<open>c_div\<close>), as does the conversion of a float to
    an int (\<open>c_trunc\<close>).
  \<^item> A \<^verbatim>\<open>std::vector<std::vector<float>>\<close> is a list of lists, indexed
    \<^verbatim>\<open>g[x][y]\<close>. An access outside the vector is undefined behaviour in C++; here
    every read (\<open>rd\<close>) and write (\<open>wr\<close>) checks its indices, and a function that
    would touch a cell outside a grid returns \<open>None\<close>.
  \<^item> A \<^verbatim>\<open>for\<close> loop over an index range is \<open>for_each\<close> over that range, threading
    the mutated state through the iterations in the order of the source.
\<close>

type_synonym grid = "real list list"

definition wf_grid :: "nat \<Rightarrow> nat \<Rightarrow> grid \<Rightarrow> bool" where
  "wf_grid w h g \<longleftrightarrow> length g = w \<and> (\<forall>col \<in> set g. length col = h)"

definition rd :: "grid \<Rightarrow> nat \<Rightarrow> nat \<Rightarrow> real option" where
  "rd g x y = (if x < length g \<and> y < length (g ! x) then Some (g ! x ! y) else None)"

definition wr :: "grid \<Rightarrow> nat \<Rightarrow> nat \<Rightarrow> real \<Rightarrow> grid option" where
  "wr g x y v =
     (if x < length g \<and> y < length (g ! x) then Some (g[x := (g ! x)[y := v]]) else None)"

text \<open>Reading a cell of the grid a fallible operation returned, for closed statements.\<close>

definition cell_of :: "grid option \<Rightarrow> nat \<Rightarrow> nat \<Rightarrow> real option" where
  "cell_of r x y = (case r of None \<Rightarrow> None | Some g \<Rightarrow> rd g x y)"

fun for_each :: "nat list \<Rightarrow> (nat \<Rightarrow> 's \<Rightarrow> 's option) \<Rightarrow> 's \<Rightarrow> 's option" where
  "for_each [] body s = Some s"
| "for_each (n # ns) body s =
     (case body n s of None \<Rightarrow> None | Some s' \<Rightarrow> for_each ns body s')"

definition c_trunc :: "real \<Rightarrow> int" where
  "c_trunc r = (if r < 0 then \<lceil>r\<rceil> else \<lfloor>r\<rfloor>)"

definition c_div :: "int \<Rightarrow> int \<Rightarrow> int" where
  "c_div a b = (if (a < 0) = (b < 0) then \<bar>a\<bar> div \<bar>b\<bar> else - (\<bar>a\<bar> div \<bar>b\<bar>))"

text \<open>
  Binary32 arithmetic. \<open>binade x\<close> is the exponent \<open>e\<close> with \<open>2^e \<le> |x| < 2^(e+1)\<close>;
  \<open>round32\<close> rounds a real to the nearest float with a 24-bit significand, ties to
  the even significand, with the fixed spacing \<open>2^-149\<close> below \<open>2^-126\<close> (overflow to
  infinity is not modelled: where it would happen here, the conversion to \<^verbatim>\<open>int\<close> that
  follows is undefined in any case). \<open>i2f\<close> is the conversion of an \<^verbatim>\<open>int\<close> to
  \<^verbatim>\<open>float\<close>. \<open>f2i\<close> is \<^verbatim>\<open>static_cast<int>\<close> of a float: truncation towards zero,
  and undefined behaviour (\<open>None\<close>) when the truncated value is not a 32-bit int
  (there the x86-64 conversion instruction returns \<open>-2^31\<close>).
\<close>

function ilog2 :: "int \<Rightarrow> nat" where
  "ilog2 n = (if n < 2 then 0 else Suc (ilog2 (n div 2)))"
  by pat_completeness auto
termination
  by (relation "measure nat") auto

declare ilog2.simps [simp del]

definition pow2 :: "int \<Rightarrow> real" where
  "pow2 e = (if 0 \<le> e then 2 ^ nat e else 1 / 2 ^ nat (- e))"

definition binade :: "real \<Rightarrow> int" where
  "binade x =
     (if 1 \<le> \<bar>x\<bar> then int (ilog2 \<lfloor>\<bar>x\<bar>\<rfloor>)
      else - int (Suc (ilog2 (\<lceil>1 / \<bar>x\<bar>\<rceil> - 1))))"

definition round_even :: "real \<Rightarrow> int" where
  "round_even r =
     (let f = \<lfloor>r\<rfloor>; d = r - real_of_int f
      in if d < 1/2 then f else if d > 1/2 then f + 1 else if even f then f else f + 1)"

definition round32 :: "real \<Rightarrow> real" where
  "round32 x =
     (if x = 0 then 0
      else let q = pow2 (max (binade x) (- 126) - 23)
           in real_of_int (round_even (x / q)) * q)"

definition i2f :: "int \<Rightarrow> real" where
  "i2f i = round32 (real_of_int i)"

definition f2i :: "real \<Rightarrow> int option" where
  "f2i r =
     (if - 2147483648 \<le> c_trunc r \<and> c_trunc r \<le> 2147483647 then Some (c_trunc r) else None)"

text \<open>
  Both classes carry the same five window fields (\<^verbatim>\<open>width\<close>, \<^verbatim>\<open>height\<close>,
  \<^verbatim>\<open>offsetX\<close>, \<^verbatim>\<open>offsetY\<close>, \<^verbatim>\<open>gridSize\<close>); the records share them through a common
  parent so that each field keeps its source name. \<open>planePosition\<close> is the x and y
  of the scene node of \<^verbatim>\<open>compoundCloudsPlane\<close>, the only part of the renderer that
  the rebasing code writes.
\<close>

record window =
  width :: nat
  height :: nat
  offsetX :: int
  offsetY :: int
  gridSize :: int

record CompoundCloudComponent = window +
  density :: grid
  oldDens :: grid

record CompoundCloudSystem = window +
  noiseScale :: real
  xVelocity :: grid
  yVelocity :: grid
  planePosition :: "int \<times> int"

section \<open>CompoundCloudComponent: takeCompound and amountAvailable\<close>

text \<open>
  Lines 67 to 95. \<^verbatim>\<open>static_cast<int>(density[x][y])*rate\<close> converts the cell to an
  \<^verbatim>\<open>int\<close>, that \<^verbatim>\<open>int\<close> back to a float, multiplies in binary32, and the
  initialisation of \<^verbatim>\<open>int amountToGive\<close> converts the product to an \<^verbatim>\<open>int\<close>.
  \<^verbatim>\<open>density[x][y] -= amountToGive\<close> converts the amount to a float and subtracts in
  binary32. The functions return their \<^verbatim>\<open>int\<close> together with the component as
  they leave it.
\<close>

definition takeCompound ::
  "CompoundCloudComponent \<Rightarrow> int \<Rightarrow> int \<Rightarrow> real \<Rightarrow> (int \<times> CompoundCloudComponent) option" where
  "takeCompound c x y rate =
     (if x \<ge> 0 \<and> x < int (width c) \<and> y \<ge> 0 \<and> y < int (height c) then
        do {
          d \<leftarrow> rd (density c) (nat x) (nat y);
          n \<leftarrow> f2i d;
          amountToGive \<leftarrow> f2i (round32 (i2f n * rate));
          dens \<leftarrow> wr (density c) (nat x) (nat y) (round32 (d - i2f amountToGive));
          d' \<leftarrow> rd dens (nat x) (nat y);
          dens \<leftarrow> (if d' < 1 then wr dens (nat x) (nat y) 0 else Some dens);
          Some (amountToGive, c\<lparr>density := dens\<rparr>)
        }
      else Some (-1, c))"

definition amountAvailable ::
  "CompoundCloudComponent \<Rightarrow> int \<Rightarrow> int \<Rightarrow> real \<Rightarrow> (int \<times> CompoundCloudComponent) option" where
  "amountAvailable c x y rate =
     (if x \<ge> 0 \<and> x < int (width c) \<and> y \<ge> 0 \<and> y < int (height c) then
        do {
          d \<leftarrow> rd (density c) (nat x) (nat y);
          n \<leftarrow> f2i d;
          amountToGive \<leftarrow> f2i (round32 (i2f n * rate));
          Some (amountToGive, c)
        }
      else Some (-1, c))"

text \<open>
  The methods of \<^verbatim>\<open>CompoundCloudComponent\<close> that the scripts can call are those
  \<^verbatim>\<open>ThriveGame.cpp\<close> registers with the script engine (lines 834 to 856): each
  registration binds a script declaration to a member function. The script method
  \<^verbatim>\<open>amountAvailable\<close> is bound to the member \<^verbatim>\<open>takeCompound\<close>; no registration
  (and no other code of the repository) names the member \<^verbatim>\<open>amountAvailable\<close>.
  \<open>script_call\<close> is a script's call of a method of declaration \<open>decl\<close> with an
  \<^verbatim>\<open>(int, int, float)\<close> argument list: the member the declaration is bound to runs
  (\<open>None\<close> when no method has that declaration or the member takes other arguments).
\<close>

datatype cloud_member = AddCloud | TakeCompound | AmountAvailable

definition registered_methods :: "(string \<times> cloud_member) list" where
  "registered_methods =
     [(''void addCloud(float density, int x, int y)'', AddCloud),
      (''int takeCompound(int x, int y, float rate)'', TakeCompound),
      (''int amountAvailable(int x, int y, float rate)'', TakeCompound)]"

definition call_member ::
  "cloud_member \<Rightarrow> CompoundCloudComponent \<Rightarrow> int \<Rightarrow> int \<Rightarrow> real \<Rightarrow>
   (int \<times> CompoundCloudComponent) option" where
  "call_member m c x y rate =
     (case m of
        TakeCompound \<Rightarrow> takeCompound c x y rate
      | AmountAvailable \<Rightarrow> amountAvailable c x y rate
      | AddCloud \<Rightarrow> None)"

definition script_call ::
  "string \<Rightarrow> CompoundCloudComponent \<Rightarrow> int \<Rightarrow> int \<Rightarrow> real \<Rightarrow>
   (int \<times> CompoundCloudComponent) option" where
  "script_call decl c x y rate =
     (case map_of registered_methods decl of
        None \<Rightarrow> None
      | Some m \<Rightarrow> call_member m c x y rate)"

section \<open>CompoundCloudSystem::Run: rebasing the window and shifting the grids\<close>

text \<open>
  Lines 183 to 199 of \<^verbatim>\<open>Run\<close>. The position of the player is a pair of floats; the
  four inner tests run in the order of the source, each on the offsets the earlier
  ones left.
\<close>

definition Run_offsets :: "real \<Rightarrow> real \<Rightarrow> CompoundCloudSystem \<Rightarrow> CompoundCloudSystem" where
  "Run_offsets px py s =
     (if px > real_of_int (offsetX s + c_div (c_div (int (width s)) 3 * gridSize s) 2) \<or>
         py > real_of_int (offsetY s + c_div (c_div (int (height s)) 3 * gridSize s) 2) \<or>
         px < real_of_int (offsetX s - c_div (c_div (int (width s)) 3 * gridSize s) 2) \<or>
         py < real_of_int (offsetY s - c_div (c_div (int (height s)) 3 * gridSize s) 2)
      then
        let s = (if px > real_of_int (offsetX s + c_div (c_div (int (width s)) 3 * gridSize s) 2)
                 then s\<lparr>offsetX := offsetX s + c_div (int (width s)) 3 * gridSize s\<rparr> else s);
            s = (if py > real_of_int (offsetY s + c_div (c_div (int (height s)) 3 * gridSize s) 2)
                 then s\<lparr>offsetY := offsetY s + c_div (int (height s)) 3 * gridSize s\<rparr> else s);
            s = (if px < real_of_int (offsetX s - c_div (c_div (int (width s)) 3 * gridSize s) 2)
                 then s\<lparr>offsetX := offsetX s - c_div (int (width s)) 3 * gridSize s\<rparr> else s);
            s = (if py < real_of_int (offsetY s - c_div (c_div (int (height s)) 3 * gridSize s) 2)
                 then s\<lparr>offsetY := offsetY s - c_div (int (height s)) 3 * gridSize s\<rparr> else s)
        in s\<lparr>planePosition := (offsetX s, offsetY s)\<rparr>
      else s)"

text \<open>
  The bodies of the four shifting loops of \<^verbatim>\<open>Run\<close> (lines 273 to 340), one cell
  each: three assignments, in the order of the source. The horizontal branches add
  \<^verbatim>\<open>height/3\<close> and \<^verbatim>\<open>height*2/3\<close> to the x index, as the source does.
\<close>

definition shift_up_cell :: "nat \<Rightarrow> nat \<Rightarrow> nat \<Rightarrow> grid \<Rightarrow> grid option" where
  "shift_up_cell h x y d =
     do {
       v \<leftarrow> rd d x (y + h div 3);
       d \<leftarrow> wr d x y v;
       v \<leftarrow> rd d x (y + h * 2 div 3);
       d \<leftarrow> wr d x (y + h div 3) v;
       wr d x (y + h * 2 div 3) 0
     }"

definition shift_right_cell :: "nat \<Rightarrow> nat \<Rightarrow> nat \<Rightarrow> grid \<Rightarrow> grid option" where
  "shift_right_cell h x y d =
     do {
       v \<leftarrow> rd d (x + h div 3) y;
       d \<leftarrow> wr d x y v;
       v \<leftarrow> rd d (x + h * 2 div 3) y;
       d \<leftarrow> wr d (x + h div 3) y v;
       wr d (x + h * 2 div 3) y 0
     }"

definition shift_left_cell :: "nat \<Rightarrow> nat \<Rightarrow> nat \<Rightarrow> grid \<Rightarrow> grid option" where
  "shift_left_cell h x y d =
     do {
       v \<leftarrow> rd d (x + h div 3) y;
       d \<leftarrow> wr d (x + h * 2 div 3) y v;
       v \<leftarrow> rd d x y;
       d \<leftarrow> wr d (x + h div 3) y v;
       wr d x y 0
     }"

definition shift_down_cell :: "nat \<Rightarrow> nat \<Rightarrow> nat \<Rightarrow> grid \<Rightarrow> grid option" where
  "shift_down_cell h x y d =
     do {
       v \<leftarrow> rd d x (y + h div 3);
       d \<leftarrow> wr d x (y + h * 2 div 3) v;
       v \<leftarrow> rd d x y;
       d \<leftarrow> wr d x (y + h div 3) v;
       wr d x y 0
     }"

text \<open>
  Lines 271 to 344 of \<^verbatim>\<open>Run\<close>, for one cloud: when the cloud's cached offset
  differs from the system's, one of the four shifts runs (none when both axes
  differ), and the cached offset is set to the system's.
\<close>

definition Run_shift ::
  "CompoundCloudSystem \<Rightarrow> CompoundCloudComponent \<Rightarrow> CompoundCloudComponent option" where
  "Run_shift s c =
     (if offsetX c \<noteq> offsetX s \<or> offsetY c \<noteq> offsetY s then
        do {
          d \<leftarrow>
            (if offsetX c = offsetX s \<and> offsetY c < offsetY s then
               for_each [0..<width s]
                 (\<lambda>x. for_each [0..<height s div 3] (shift_up_cell (height s) x)) (density c)
             else if offsetX c < offsetX s \<and> offsetY c = offsetY s then
               for_each [0..<width s div 3]
                 (\<lambda>x. for_each [0..<height s] (shift_right_cell (height s) x)) (density c)
             else if offsetX c > offsetX s \<and> offsetY c = offsetY s then
               for_each [0..<width s div 3]
                 (\<lambda>x. for_each [0..<height s] (shift_left_cell (height s) x)) (density c)
             else if offsetX c = offsetX s \<and> offsetY c > offsetY s then
               for_each [0..<width s]
                 (\<lambda>x. for_each [0..<height s div 3] (shift_down_cell (height s) x)) (density c)
             else Some (density c));
          Some (c\<lparr>offsetX := offsetX s, offsetY := offsetY s, density := d\<rparr>)
        }
      else Some c)"

text \<open>
  The rebase check of one tick: the offsets of the system, then the shift of every
  cloud (the loop over \<^verbatim>\<open>m_compounds\<close>, without the simulation and the texture
  upload that follow the shift in the same loop body).
\<close>

fun shift_all ::
  "CompoundCloudSystem \<Rightarrow> CompoundCloudComponent list \<Rightarrow> CompoundCloudComponent list option" where
  "shift_all s [] = Some []"
| "shift_all s (c # cs) =
     (case Run_shift s c of
        None \<Rightarrow> None
      | Some c' \<Rightarrow> (case shift_all s cs of None \<Rightarrow> None | Some cs' \<Rightarrow> Some (c' # cs')))"

definition rebase_check ::
  "real \<Rightarrow> real \<Rightarrow> CompoundCloudSystem \<times> CompoundCloudComponent list \<Rightarrow>
   (CompoundCloudSystem \<times> CompoundCloudComponent list) option" where
  "rebase_check px py st =
     (let s = Run_offsets px py (fst st) in
      case shift_all s (snd st) of None \<Rightarrow> None | Some cs \<Rightarrow> Some (s, cs))"

fun repeatedly :: "nat \<Rightarrow> ('s \<Rightarrow> 's option) \<Rightarrow> 's \<Rightarrow> 's option" where
  "repeatedly 0 f s = Some s"
| "repeatedly (Suc n) f s = (case f s of None \<Rightarrow> None | Some s' \<Rightarrow> repeatedly n f s')"

section \<open>CompoundCloudSystem::CreateVelocityField\<close>

text \<open>
  \<^verbatim>\<open>fieldPotential.noise\<close> (a Perlin noise, declared outside this file) is the
  parameter \<open>noise\<close>.
\<close>

definition velocity_cell ::
  "(real \<Rightarrow> real \<Rightarrow> real \<Rightarrow> real) \<Rightarrow> nat \<Rightarrow> nat \<Rightarrow> CompoundCloudSystem \<Rightarrow>
   CompoundCloudSystem option" where
  "velocity_cell noise x y s =
     (let nxScale = noiseScale s;
          nyScale = nxScale * real (width s) / real (height s);
          x0 = (real_of_int (int x - 1) / real (width s)) * nxScale;
          y0 = (real_of_int (int y - 1) / real (height s)) * nyScale;
          x1 = (real_of_int (int x + 1) / real (width s)) * nxScale;
          y1 = (real_of_int (int y + 1) / real (height s)) * nyScale;
          n0 = noise x0 y0 0;
          n1 = noise x1 y0 0;
          ny = n0 - n1;
          n0 = noise x0 y0 0;
          n1 = noise x0 y1 0;
          nx = n1 - n0
      in do {
           xv \<leftarrow> wr (xVelocity s) x y (nx / 2);
           yv \<leftarrow> wr (yVelocity s) x y (ny / 2);
           Some (s\<lparr>xVelocity := xv, yVelocity := yv\<rparr>)
         })"

definition CreateVelocityField ::
  "(real \<Rightarrow> real \<Rightarrow> real \<Rightarrow> real) \<Rightarrow> CompoundCloudSystem \<Rightarrow> CompoundCloudSystem option" where
  "CreateVelocityField noise s =
     for_each [0..<width s] (\<lambda>x. for_each [0..<height s] (velocity_cell noise x)) s"

section \<open>CompoundCloudSystem::diffuse\<close>

definition diffuse_cell :: "real \<Rightarrow> grid \<Rightarrow> nat \<Rightarrow> nat \<Rightarrow> grid \<Rightarrow> grid option" where
  "diffuse_cell a dens x y old =
     do {
       d \<leftarrow> rd dens x y;
       l \<leftarrow> rd old (x - 1) y;
       r \<leftarrow> rd old (x + 1) y;
       u \<leftarrow> rd old x (y - 1);
       b \<leftarrow> rd old x (y + 1);
       wr old x y ((d + a * (l + r + u + b)) / (1 + 4 * a))
     }"

text \<open>The parameters \<^verbatim>\<open>oldDens\<close> and \<^verbatim>\<open>density\<close> are \<open>old\<close> and \<open>dens\<close> here (the
  record fields hold the source names). The parameter \<^verbatim>\<open>dt\<close> is overwritten with 1 on
  entry, as in the source.\<close>

definition diffuse ::
  "CompoundCloudSystem \<Rightarrow> real \<Rightarrow> grid \<Rightarrow> grid \<Rightarrow> int \<Rightarrow> grid option" where
  "diffuse s diffRate old dens dt =
     (let dt = 1;
          a = real_of_int dt * diffRate
      in for_each [1..<width s - 1]
           (\<lambda>x. for_each [1..<height s - 1] (diffuse_cell a dens x)) old)"

section \<open>CompoundCloudSystem::advect\<close>

text \<open>
  The two clamping statements of the source, which are the same for \<^verbatim>\<open>dx\<close> (with
  \<^verbatim>\<open>width\<close>) and \<^verbatim>\<open>dy\<close> (with \<^verbatim>\<open>height\<close>).
\<close>

definition clamp_coord :: "nat \<Rightarrow> real \<Rightarrow> real" where
  "clamp_coord n d =
     (let d = (if d < 0.5 then 0.5 else d)
      in if d > real n - 1.5 then real n - 1.5 else d)"

text \<open>\<^verbatim>\<open>density[x][y] += v\<close> with \<^verbatim>\<open>int\<close> indices: a negative index is outside the vector.\<close>

definition add_at :: "grid \<Rightarrow> int \<Rightarrow> int \<Rightarrow> real \<Rightarrow> grid option" where
  "add_at g x y v =
     (if 0 \<le> x \<and> 0 \<le> y then
        do { old \<leftarrow> rd g (nat x) (nat y); wr g (nat x) (nat y) (old + v) }
      else None)"

definition advect_cell ::
  "CompoundCloudSystem \<Rightarrow> int \<Rightarrow> grid \<Rightarrow> nat \<Rightarrow> nat \<Rightarrow> grid \<Rightarrow> grid option" where
  "advect_cell s dt old x y dens =
     do {
       od \<leftarrow> rd old x y;
       if od > 1 then
         do {
           vx \<leftarrow> rd (xVelocity s) x y;
           vy \<leftarrow> rd (yVelocity s) x y;
           let dx = clamp_coord (width s) (real x + real_of_int dt * vx);
           let dy = clamp_coord (height s) (real y + real_of_int dt * vy);
           let x0 = c_trunc dx;
           let x1 = x0 + 1;
           let y0 = c_trunc dy;
           let y1 = y0 + 1;
           let s1 = dx - real_of_int x0;
           let s0 = 1 - s1;
           let t1 = dy - real_of_int y0;
           let t0 = 1 - t1;
           dens \<leftarrow> add_at dens x0 y0 (od * s0 * t0);
           dens \<leftarrow> add_at dens x0 y1 (od * s0 * t1);
           dens \<leftarrow> add_at dens x1 y0 (od * s1 * t0);
           add_at dens x1 y1 (od * s1 * t1)
         }
       else Some dens
     }"

definition advect ::
  "CompoundCloudSystem \<Rightarrow> grid \<Rightarrow> grid \<Rightarrow> int \<Rightarrow> grid option" where
  "advect s old dens dt =
     (let dt = 1 in
      do {
        dens \<leftarrow> for_each [0..<width s]
                     (\<lambda>x. for_each [0..<height s] (\<lambda>y d. wr d x y 0)) dens;
        for_each [1..<width s - 1]
          (\<lambda>x. for_each [1..<height s - 1] (advect_cell s dt old x)) dens
      })"

section \<open>Concrete inputs of the examples\<close>

text \<open>
  A 2 by 2 cloud holding 10 in cell (0,0) and 3000000000 (a float) in cell (1,1);
  \<open>rate_7_10\<close> is the float nearest to 0.7.
\<close>

definition sample_cloud :: CompoundCloudComponent where
  "sample_cloud = \<lparr>width = 2, height = 2, offsetX = 0, offsetY = 0, gridSize = 2,
     density = [[10, 5/2], [1/2, 3000000000]], oldDens = [[0, 0], [0, 0]]\<rparr>"

definition rate_7_10 :: real where
  "rate_7_10 = 11744051 / 16777216"

definition sample_system :: CompoundCloudSystem where
  "sample_system = \<lparr>width = 3, height = 3, offsetX = 0, offsetY = 0, gridSize = 2,
     noiseScale = 5, xVelocity = replicate 3 (replicate 3 0),
     yVelocity = replicate 3 (replicate 3 0), planePosition = (0, 0)\<rparr>"

definition sample_cloud3 :: "int \<Rightarrow> CompoundCloudComponent" where
  "sample_cloud3 ox = \<lparr>width = 3, height = 3, offsetX = ox, offsetY = 0, gridSize = 2,
     density = [[1, 2, 3], [4, 5, 6], [7, 8, 9]], oldDens = replicate 3 (replicate 3 0)\<rparr>"

text \<open>
  The end-to-end scenario of the specification: a 6 by 6 window, cells of size 1, no
  velocity, all density zero but 100 in cell (3,3), and a zero scratch buffer.
\<close>

definition zero_grid :: "nat \<Rightarrow> nat \<Rightarrow> grid" where
  "zero_grid w h = replicate w (replicate h 0)"

definition scenario_system :: CompoundCloudSystem where
  "scenario_system = \<lparr>width = 6, height = 6, offsetX = 0, offsetY = 0, gridSize = 1,
     noiseScale = 5, xVelocity = zero_grid 6 6, yVelocity = zero_grid 6 6,
     planePosition = (0, 0)\<rparr>"

definition scenario_density :: grid where
  "scenario_density = (zero_grid 6 6)[3 := (zero_grid 6 6 ! 3)[3 := 100]]"

text \<open>
  The advection step in the words of the specification: the share of the content of
  source cell \<open>(x, y)\<close> that destination cell \<open>(i, j)\<close> receives. A source holding at
  most 1 gives nothing; otherwise the destination point is \<open>x\<close> plus the x velocity
  and \<open>y\<close> plus the y velocity (with \<open>dt = 1\<close>), clamped to \<open>[0.5, width - 1.5]\<close> and
  \<open>[0.5, height - 1.5]\<close>, and the content is split between the four cells around it
  with the bilinear weights.
\<close>

definition advect_share :: "CompoundCloudSystem \<Rightarrow> grid \<Rightarrow> nat \<Rightarrow> nat \<Rightarrow> nat \<Rightarrow> nat \<Rightarrow> real" where
  "advect_share s old x y i j =
     (if old ! x ! y > 1 then
        let dx = max (1/2) (min (real (width s) - 3/2) (real x + 1 * xVelocity s ! x ! y));
            dy = max (1/2) (min (real (height s) - 3/2) (real y + 1 * yVelocity s ! x ! y));
            x0 = \<lfloor>dx\<rfloor>; x1 = x0 + 1; y0 = \<lfloor>dy\<rfloor>; y1 = y0 + 1;
            s1 = dx - real_of_int x0; s0 = 1 - s1;
            t1 = dy - real_of_int y0; t0 = 1 - t1
        in (if int i = x0 \<and> int j = y0 then old ! x ! y * s0 * t0 else 0) +
           (if int i = x0 \<and> int j = y1 then old ! x ! y * s0 * t1 else 0) +
           (if int i = x1 \<and> int j = y0 then old ! x ! y * s1 * t0 else 0) +
           (if int i = x1 \<and> int j = y1 then old ! x ! y * s1 * t1 else 0)
      else 0)"

text \<open>A 3 by 3 system whose velocity at the one interior cell is (1/4, 100).\<close>

definition windy_system :: CompoundCloudSystem where
  "windy_system = sample_system
     \<lparr>xVelocity := [[0, 0, 0], [0, 1/4, 0], [0, 0, 0]],
      yVelocity := [[0, 0, 0], [0, 100, 0], [0, 0, 0]]\<rparr>"

text \<open>
  The specification's \<open>noise(i, j)\<close>: the potential sampled at the point of cell
  coordinates \<open>(i, j)\<close>, scaled by \<open>noiseScale / width\<close> in x and by
  \<open>noiseScale * (width / height) / height\<close> in y. \<open>ramp_noise\<close> is a potential that
  grows with its second coordinate only.
\<close>

definition potential_at ::
  "(real \<Rightarrow> real \<Rightarrow> real \<Rightarrow> real) \<Rightarrow> CompoundCloudSystem \<Rightarrow> int \<Rightarrow> int \<Rightarrow> real" where
  "potential_at noise s i j =
     noise ((real_of_int i / real (width s)) * noiseScale s)
           ((real_of_int j / real (height s)) * (noiseScale s * real (width s) / real (height s))) 0"

definition ramp_noise :: "real \<Rightarrow> real \<Rightarrow> real \<Rightarrow> real" where
  "ramp_noise u v z = v"

text \<open>A cloud holding 2 in cell (0,1) and nothing elsewhere.\<close>

definition impulse_cloud :: "int \<Rightarrow> CompoundCloudComponent" where
  "impulse_cloud ox = \<lparr>width = 3, height = 3, offsetX = ox, offsetY = 0, gridSize = 2,
     density = [[0, 2, 0], [0, 0, 0], [0, 0, 0]], oldDens = replicate 3 (replicate 3 0)\<rparr>"




section \<open>Basic facts about grids and loops\<close>

lemma rd_wf: "wf_grid w h g \<Longrightarrow> x < w \<Longrightarrow> y < h \<Longrightarrow> rd g x y = Some (g ! x ! y)"
  by (simp add: wf_grid_def rd_def)

lemma wr_wf:
  "wf_grid w h g \<Longrightarrow> x < w \<Longrightarrow> y < h \<Longrightarrow> wr g x y v = Some (g[x := (g ! x)[y := v]])"
  by (simp add: wf_grid_def wr_def)

lemma wf_update:
  assumes "wf_grid w h g"
  shows "wf_grid w h (g[x := (g ! x)[y := v]])"
proof -
  have "length col = h" if "col \<in> set (g[x := (g ! x)[y := v]])" for col
  proof -
    from that have "col \<in> insert ((g ! x)[y := v]) (set g)"
      using set_update_subset_insert by fastforce
    moreover have "length ((g ! x)[y := v]) = h" if "x < length g"
      using that assms by (simp add: wf_grid_def)
    moreover have "g[x := (g ! x)[y := v]] = g" if "\<not> x < length g"
      using that by (simp add: list_update_beyond)
    ultimately show ?thesis
      using assms that by (cases "x < length g") (auto simp: wf_grid_def)
  qed
  with assms show ?thesis by (simp add: wf_grid_def)
qed

lemma nth_update:
  "wf_grid w h g \<Longrightarrow> i < w \<Longrightarrow> j < h \<Longrightarrow>
   g[x := (g ! x)[y := v]] ! i ! j = (if i = x \<and> j = y then v else g ! i ! j)"
  by (cases "i = x") (auto simp: wf_grid_def nth_list_update)

text \<open>
  The proof rule for a counting loop: an invariant that holds on entry and that every
  iteration re-establishes, without failing, holds on exit, and the loop does not fail.
\<close>

lemma for_each_append:
  "for_each (xs @ ys) body s =
     (case for_each xs body s of None \<Rightarrow> None | Some s' \<Rightarrow> for_each ys body s')"
  by (induction xs arbitrary: s) (auto split: option.splits)

lemma for_each_upt_Suc:
  "lo \<le> n \<Longrightarrow> for_each [lo..<Suc n] body s =
     (case for_each [lo..<n] body s of None \<Rightarrow> None | Some s' \<Rightarrow> body n s')"
  by (simp add: for_each_append split: option.splits)

lemma for_each_invariant:
  assumes init: "I lo s"
    and step: "\<And>i t. lo \<le> i \<Longrightarrow> i < hi \<Longrightarrow> I i t \<Longrightarrow> \<exists>t'. body i t = Some t' \<and> I (Suc i) t'"
  shows "\<exists>t. for_each [lo..<hi] body s = Some t \<and> I (max lo hi) t"
proof (cases "lo \<le> hi")
  case False
  with init show ?thesis by (simp add: max_def)
next
  case True
  have "n \<le> hi \<Longrightarrow> lo \<le> n \<Longrightarrow> \<exists>t. for_each [lo..<n] body s = Some t \<and> I n t" for n
  proof (induction n)
    case 0
    with init show ?case by simp
  next
    case (Suc n)
    show ?case
    proof (cases "lo = Suc n")
      case True
      with init show ?thesis by simp
    next
      case False
      with Suc.prems have le: "lo \<le> n" "n < hi" by auto
      with Suc.IH obtain t where t: "for_each [lo..<n] body s = Some t" "I n t" by auto
      from step [OF le t(2)] obtain t' where "body n t = Some t'" "I (Suc n) t'" by auto
      with t le show ?thesis by (simp add: for_each_append)
    qed
  qed
  from this [of hi] True show ?thesis by (simp add: max_def)
qed

section \<open>takeCompound and the script accessor amountAvailable\<close>

lemma f2i_Some: "f2i r = Some n \<longleftrightarrow> n = c_trunc r \<and> - 2147483648 \<le> c_trunc r \<and> c_trunc r \<le> 2147483647"
  by (auto simp: f2i_def)

lemma takeCompound_char:
  assumes wf: "wf_grid (width c) (height c) (density c)"
    and b: "0 \<le> x" "x < int (width c)" "0 \<le> y" "y < int (height c)"
    and n: "f2i (density c ! nat x ! nat y) = Some n"
    and a: "f2i (round32 (i2f n * rate)) = Some amt"
  shows "takeCompound c x y rate =
     Some (amt, c\<lparr>density := (density c)[nat x := (density c ! nat x)[nat y :=
        (if round32 (density c ! nat x ! nat y - i2f amt) < 1 then 0
         else round32 (density c ! nat x ! nat y - i2f amt))]]\<rparr>)"
proof -
  define i j where "i = nat x" and "j = nat y"
  define d where "d = density c ! i ! j"
  define r where "r = round32 (d - i2f amt)"
  define g1 where "g1 = (density c)[i := (density c ! i)[j := r]]"
  have ij: "i < width c" "j < height c" using b by (auto simp: i_def j_def)
  have len: "i < length (density c)" using wf ij by (simp add: wf_grid_def)
  have wf1: "wf_grid (width c) (height c) g1"
    unfolding g1_def by (rule wf_update [OF wf])
  have r0: "rd (density c) i j = Some d"
    unfolding d_def by (rule rd_wf [OF wf ij])
  have w1: "wr (density c) i j r = Some g1"
    unfolding g1_def by (rule wr_wf [OF wf ij])
  have v1: "g1 ! i ! j = r"
    unfolding g1_def using nth_update [OF wf ij, of i j r] by simp
  have r1: "rd g1 i j = Some r"
    using rd_wf [OF wf1 ij] v1 by simp
  have w2: "wr g1 i j 0 = Some ((density c)[i := (density c ! i)[j := 0]])"
    using wr_wf [OF wf1 ij, of 0] len by (simp add: g1_def)
  show ?thesis
  proof (cases "r < 1")
    case True
    with b n a r0 w1 r1 w2 show ?thesis
      by (simp add: takeCompound_def i_def [symmetric] j_def [symmetric] d_def [symmetric]
          r_def [symmetric])
  next
    case False
    with b n a r0 w1 r1 show ?thesis
      by (simp add: takeCompound_def i_def [symmetric] j_def [symmetric] d_def [symmetric]
          r_def [symmetric] g1_def)
  qed
qed

lemma takeCompound_undefined:
  assumes wf: "wf_grid (width c) (height c) (density c)"
    and b: "0 \<le> x" "x < int (width c)" "0 \<le> y" "y < int (height c)"
    and n: "f2i (density c ! nat x ! nat y) = None"
  shows "takeCompound c x y rate = None"
proof -
  have "nat x < width c" "nat y < height c" using b by auto
  from rd_wf [OF wf this] b n show ?thesis
    by (simp add: takeCompound_def)
qed


lemma round32_examples:
  "round32 10 = 10" "round32 7 = 7" "round32 3 = 3" "round32 (10 * rate_7_10) = 7"
proof -
  have b: "binade 10 = 3" "binade 7 = 2" "binade 3 = 1" "binade (10 * (11744051 / 16777216)) = 2"
    by (simp_all add: binade_def ilog2.simps)
  show "round32 10 = 10"
    unfolding round32_def Let_def
    by (simp only: b) (simp add: pow2_def round_even_def Let_def)
  show "round32 7 = 7"
    unfolding round32_def Let_def
    by (simp only: b) (simp add: pow2_def round_even_def Let_def)
  show "round32 3 = 3"
    unfolding round32_def Let_def
    by (simp only: b) (simp add: pow2_def round_even_def Let_def)
  show "round32 (10 * rate_7_10) = 7"
    unfolding round32_def Let_def rate_7_10_def
    by (simp only: b) (simp add: pow2_def round_even_def Let_def)
qed

text \<open>
  Claim C10, as amended. Outside \<open>[0, width) \<times> [0, height)\<close>, \<^verbatim>\<open>takeCompound\<close>
  returns -1 and leaves the whole component, hence every cell of \<^verbatim>\<open>density\<close>,
  unchanged. Inside, on a \<^verbatim>\<open>density\<close> of \<^verbatim>\<open>width\<close> by \<^verbatim>\<open>height\<close> cells, let \<open>d\<close> be
  the cell and \<open>p\<close> the binary32 product of \<open>trunc d\<close> (as a float) and \<open>rate\<close>. When
  \<open>trunc d\<close> and \<open>trunc p\<close> fit a 32-bit \<^verbatim>\<open>int\<close>, so that both conversions are defined,
  the call returns \<open>trunc p\<close>; the cell is left at \<open>d - trunc p\<close> (rounded to binary32)
  if that is at least 1, and at 0 otherwise, so it is 0 or at least 1; the other
  cells and fields are unchanged. The claim's premise that the cell is non-negative
  beforehand is not needed.
\<close>

theorem takeCompound_result:
  "(\<not> (0 \<le> x \<and> x < int (width c) \<and> 0 \<le> y \<and> y < int (height c)) \<longrightarrow>
      takeCompound c x y rate = Some (-1, c)) \<and>
   (wf_grid (width c) (height c) (density c) \<and>
    0 \<le> x \<and> x < int (width c) \<and> 0 \<le> y \<and> y < int (height c) \<longrightarrow>
      (let d = density c ! nat x ! nat y;
           p = round32 (i2f (c_trunc d) * rate);
           r = round32 (d - i2f (c_trunc p))
       in - 2147483648 \<le> c_trunc d \<and> c_trunc d \<le> 2147483647 \<and>
          - 2147483648 \<le> c_trunc p \<and> c_trunc p \<le> 2147483647 \<longrightarrow>
          (\<exists>c'. takeCompound c x y rate = Some (c_trunc p, c') \<and>
             (density c' ! nat x ! nat y = 0 \<or> 1 \<le> density c' ! nat x ! nat y) \<and>
             density c' ! nat x ! nat y = (if r < 1 then 0 else r) \<and>
             c' = c\<lparr>density := density c'\<rparr> \<and>
             (\<forall>i j. i < width c \<longrightarrow> j < height c \<longrightarrow> (i, j) \<noteq> (nat x, nat y) \<longrightarrow>
                density c' ! i ! j = density c ! i ! j))))"
proof (intro conjI impI)
  assume "\<not> (0 \<le> x \<and> x < int (width c) \<and> 0 \<le> y \<and> y < int (height c))"
  then show "takeCompound c x y rate = Some (-1, c)"
    by (auto simp: takeCompound_def)
next
  assume h: "wf_grid (width c) (height c) (density c) \<and>
    0 \<le> x \<and> x < int (width c) \<and> 0 \<le> y \<and> y < int (height c)"
  define d where "d = density c ! nat x ! nat y"
  define p where "p = round32 (i2f (c_trunc d) * rate)"
  define r where "r = round32 (d - i2f (c_trunc p))"
  define g where "g = (density c)[nat x := (density c ! nat x)[nat y := (if r < 1 then 0 else r)]]"
  from h have wf: "wf_grid (width c) (height c) (density c)"
    and b: "0 \<le> x" "x < int (width c)" "0 \<le> y" "y < int (height c)"
    and nb: "nat x < width c" "nat y < height c"
    by auto
  have "\<exists>c'. takeCompound c x y rate = Some (c_trunc p, c') \<and>
             (density c' ! nat x ! nat y = 0 \<or> 1 \<le> density c' ! nat x ! nat y) \<and>
             density c' ! nat x ! nat y = (if r < 1 then 0 else r) \<and>
             c' = c\<lparr>density := density c'\<rparr> \<and>
             (\<forall>i j. i < width c \<longrightarrow> j < height c \<longrightarrow> (i, j) \<noteq> (nat x, nat y) \<longrightarrow>
                density c' ! i ! j = density c ! i ! j)"
    if rg: "- 2147483648 \<le> c_trunc d \<and> c_trunc d \<le> 2147483647 \<and>
          - 2147483648 \<le> c_trunc p \<and> c_trunc p \<le> 2147483647"
  proof -
    have n: "f2i (density c ! nat x ! nat y) = Some (c_trunc d)"
      using rg by (simp add: f2i_def d_def)
    have a: "f2i (round32 (i2f (c_trunc d) * rate)) = Some (c_trunc p)"
      using rg by (simp add: f2i_def p_def)
    have run: "takeCompound c x y rate = Some (c_trunc p, c\<lparr>density := g\<rparr>)"
      using takeCompound_char [OF wf b n a] by (simp add: g_def r_def d_def)
    have cell: "g ! nat x ! nat y = (if r < 1 then 0 else r)"
      unfolding g_def using nth_update [OF wf nb, of "nat x" "nat y"] by simp
    have others: "g ! i ! j = density c ! i ! j"
      if "i < width c" "j < height c" "(i, j) \<noteq> (nat x, nat y)" for i j
      unfolding g_def
      using nth_update [OF wf that(1,2), of "nat x" "nat y" "if r < 1 then 0 else r"] that(3)
      by auto
    have "g ! nat x ! nat y = 0 \<or> 1 \<le> g ! nat x ! nat y"
      using cell by simp
    with run cell others show ?thesis
      by (intro exI [of _ "c\<lparr>density := g\<rparr>"]) simp
  qed
  then show "let d = density c ! nat x ! nat y;
           p = round32 (i2f (c_trunc d) * rate);
           r = round32 (d - i2f (c_trunc p))
       in - 2147483648 \<le> c_trunc d \<and> c_trunc d \<le> 2147483647 \<and>
          - 2147483648 \<le> c_trunc p \<and> c_trunc p \<le> 2147483647 \<longrightarrow>
          (\<exists>c'. takeCompound c x y rate = Some (c_trunc p, c') \<and>
             (density c' ! nat x ! nat y = 0 \<or> 1 \<le> density c' ! nat x ! nat y) \<and>
             density c' ! nat x ! nat y = (if r < 1 then 0 else r) \<and>
             c' = c\<lparr>density := density c'\<rparr> \<and>
             (\<forall>i j. i < width c \<longrightarrow> j < height c \<longrightarrow> (i, j) \<noteq> (nat x, nat y) \<longrightarrow>
                density c' ! i ! j = density c ! i ! j))"
    unfolding Let_def d_def [symmetric] p_def [symmetric] r_def [symmetric] by (rule impI)
qed


lemma wf_sample_cloud:
  "wf_grid (width sample_cloud) (height sample_cloud) (density sample_cloud)"
  by (simp add: wf_grid_def sample_cloud_def)

lemma sample_cloud_values:
  "density sample_cloud ! nat 0 ! nat 0 = 10" "c_trunc 10 = 10" "c_trunc 7 = 7"
  "round32 (i2f 10 * rate_7_10) = 7" "round32 (10 - i2f 7) = 3"
  by (simp_all add: sample_cloud_def c_trunc_def i2f_def round32_examples)

theorem takeCompound_result_witness:
  "takeCompound sample_cloud 2 0 rate_7_10 = Some (-1, sample_cloud) \<and>
   wf_grid (width sample_cloud) (height sample_cloud) (density sample_cloud) \<and>
   c_trunc (density sample_cloud ! 0 ! 0) = 10 \<and>
   c_trunc (round32 (i2f 10 * rate_7_10)) = 7 \<and>
   (\<exists>c'. takeCompound sample_cloud 0 0 rate_7_10 = Some (7, c') \<and> density c' ! 0 ! 0 = 3 \<and>
      density c' ! 1 ! 1 = 3000000000)"
proof -
  note v = sample_cloud_values
  have out: "takeCompound sample_cloud 2 0 rate_7_10 = Some (-1, sample_cloud)"
    using takeCompound_result [of 2 sample_cloud 0 rate_7_10] by (simp add: sample_cloud_def)
  have pre: "wf_grid (width sample_cloud) (height sample_cloud) (density sample_cloud) \<and>
      (0::int) \<le> 0 \<and> 0 < int (width sample_cloud) \<and> (0::int) \<le> 0 \<and> 0 < int (height sample_cloud)"
    using wf_sample_cloud by (simp add: sample_cloud_def)
  have rg: "- 2147483648 \<le> (10::int) \<and> (10::int) \<le> 2147483647 \<and>
      - 2147483648 \<le> (7::int) \<and> (7::int) \<le> 2147483647"
    by simp
  from takeCompound_result [of 0 sample_cloud 0 rate_7_10, THEN conjunct2, THEN mp, OF pre,
      unfolded Let_def v, THEN mp, OF rg]
  obtain c' where run: "takeCompound sample_cloud 0 0 rate_7_10 = Some (7, c')"
    and cell: "density c' ! nat 0 ! nat 0 = (if (3::real) < 1 then 0 else 3)"
    and others: "\<forall>i j. i < width sample_cloud \<longrightarrow> j < height sample_cloud \<longrightarrow>
        (i, j) \<noteq> (nat 0, nat 0) \<longrightarrow> density c' ! i ! j = density sample_cloud ! i ! j"
    by blast
  have "density c' ! 0 ! 0 = 3"
    using cell by simp
  moreover have "density c' ! 1 ! 1 = 3000000000"
    using others [rule_format, of 1 1] by (simp add: sample_cloud_def)
  moreover have "c_trunc (density sample_cloud ! 0 ! 0) = 10" "c_trunc (round32 (i2f 10 * rate_7_10)) = 7"
    using v by simp_all
  ultimately show ?thesis
    using out wf_sample_cloud run by blast
qed

text \<open>
  Claim C10 as stated fails where a conversion to \<^verbatim>\<open>int\<close> is undefined: cell (1,1)
  of \<open>sample_cloud\<close> is in bounds and holds the non-negative float 3000000000, whose
  truncation is not a 32-bit \<^verbatim>\<open>int\<close>, and the call has no defined result (the amount
  the claim gives, 3000000000, is not an \<^verbatim>\<open>int\<close> either).
\<close>

theorem takeCompound_overflow_counterexample:
  "wf_grid (width sample_cloud) (height sample_cloud) (density sample_cloud) \<and>
   rd (density sample_cloud) 1 1 = Some 3000000000 \<and>
   round32 3000000000 = 3000000000 \<and>
   takeCompound sample_cloud 1 1 1 = None"
proof -
  have "binade 3000000000 = 31"
    by (simp add: binade_def ilog2.simps)
  then have "round32 3000000000 = 3000000000"
    unfolding round32_def Let_def
    by (simp only:) (simp add: pow2_def round_even_def Let_def)
  moreover have "rd (density sample_cloud) 1 1 = Some 3000000000"
    by (simp add: sample_cloud_def rd_def)
  moreover have "takeCompound sample_cloud 1 1 1 = None"
    by (rule takeCompound_undefined [OF wf_sample_cloud])
      (simp_all add: sample_cloud_def f2i_def c_trunc_def)
  ultimately show ?thesis
    using wf_sample_cloud by simp
qed

lemma script_call_bindings:
  "script_call ''int amountAvailable(int x, int y, float rate)'' c x y rate = takeCompound c x y rate"
  "script_call ''int takeCompound(int x, int y, float rate)'' c x y rate = takeCompound c x y rate"
  by (simp_all add: script_call_def registered_methods_def call_member_def)

text \<open>
  Claim C9. The accessor \<^verbatim>\<open>amountAvailable\<close> that the scripts call is bound to the
  member \<^verbatim>\<open>takeCompound\<close>: for every component, cell and rate, a call of it gives
  what a call of the script method \<^verbatim>\<open>takeCompound\<close> gives, the returned value and
  the component as the call leaves it. In particular it mutates: in bounds, on a
  \<^verbatim>\<open>density\<close> of \<^verbatim>\<open>width\<close> by \<^verbatim>\<open>height\<close> cells and with both conversions to \<^verbatim>\<open>int\<close>
  defined, it returns \<open>trunc p\<close> (\<open>p\<close> the binary32 product of \<open>trunc d\<close> and \<open>rate\<close>)
  and leaves the cell at \<open>d - trunc p\<close> (rounded to binary32), or at 0 when that is
  below 1.
\<close>

theorem script_amountAvailable_takes:
  "script_call ''int amountAvailable(int x, int y, float rate)'' c x y rate =
     script_call ''int takeCompound(int x, int y, float rate)'' c x y rate \<and>
   script_call ''int amountAvailable(int x, int y, float rate)'' c x y rate =
     takeCompound c x y rate \<and>
   (wf_grid (width c) (height c) (density c) \<and>
    0 \<le> x \<and> x < int (width c) \<and> 0 \<le> y \<and> y < int (height c) \<longrightarrow>
      (let d = density c ! nat x ! nat y;
           p = round32 (i2f (c_trunc d) * rate);
           r = round32 (d - i2f (c_trunc p))
       in - 2147483648 \<le> c_trunc d \<and> c_trunc d \<le> 2147483647 \<and>
          - 2147483648 \<le> c_trunc p \<and> c_trunc p \<le> 2147483647 \<longrightarrow>
          script_call ''int amountAvailable(int x, int y, float rate)'' c x y rate =
            Some (c_trunc p, c\<lparr>density :=
              (density c)[nat x := (density c ! nat x)[nat y := (if r < 1 then 0 else r)]]\<rparr>)))"
proof (intro conjI impI)
  show "script_call ''int amountAvailable(int x, int y, float rate)'' c x y rate =
     script_call ''int takeCompound(int x, int y, float rate)'' c x y rate"
    by (simp only: script_call_bindings)
  show "script_call ''int amountAvailable(int x, int y, float rate)'' c x y rate =
     takeCompound c x y rate"
    by (rule script_call_bindings)
next
  assume h: "wf_grid (width c) (height c) (density c) \<and>
    0 \<le> x \<and> x < int (width c) \<and> 0 \<le> y \<and> y < int (height c)"
  then have wf: "wf_grid (width c) (height c) (density c)"
    and b: "0 \<le> x" "x < int (width c)" "0 \<le> y" "y < int (height c)"
    by auto
  define d where "d = density c ! nat x ! nat y"
  define p where "p = round32 (i2f (c_trunc d) * rate)"
  define r where "r = round32 (d - i2f (c_trunc p))"
  have "script_call ''int amountAvailable(int x, int y, float rate)'' c x y rate =
            Some (c_trunc p, c\<lparr>density :=
              (density c)[nat x := (density c ! nat x)[nat y := (if r < 1 then 0 else r)]]\<rparr>)"
    if rg: "- 2147483648 \<le> c_trunc d \<and> c_trunc d \<le> 2147483647 \<and>
          - 2147483648 \<le> c_trunc p \<and> c_trunc p \<le> 2147483647"
  proof -
    have n: "f2i (density c ! nat x ! nat y) = Some (c_trunc d)"
      using rg by (simp add: f2i_def d_def)
    have a: "f2i (round32 (i2f (c_trunc d) * rate)) = Some (c_trunc p)"
      using rg by (simp add: f2i_def p_def)
    show ?thesis
      using takeCompound_char [OF wf b n a]
      by (simp add: script_call_bindings r_def d_def)
  qed
  then show "let d = density c ! nat x ! nat y;
           p = round32 (i2f (c_trunc d) * rate);
           r = round32 (d - i2f (c_trunc p))
       in - 2147483648 \<le> c_trunc d \<and> c_trunc d \<le> 2147483647 \<and>
          - 2147483648 \<le> c_trunc p \<and> c_trunc p \<le> 2147483647 \<longrightarrow>
          script_call ''int amountAvailable(int x, int y, float rate)'' c x y rate =
            Some (c_trunc p, c\<lparr>density :=
              (density c)[nat x := (density c ! nat x)[nat y := (if r < 1 then 0 else r)]]\<rparr>)"
    unfolding Let_def d_def [symmetric] p_def [symmetric] r_def [symmetric] by (rule impI)
qed

theorem script_amountAvailable_takes_witness:
  "wf_grid (width sample_cloud) (height sample_cloud) (density sample_cloud) \<and>
   c_trunc (density sample_cloud ! 0 ! 0) = 10 \<and>
   c_trunc (round32 (i2f 10 * rate_7_10)) = 7 \<and>
   script_call ''int amountAvailable(int x, int y, float rate)'' sample_cloud 0 0 rate_7_10 =
     Some (7, sample_cloud\<lparr>density := [[3, 5/2], [1/2, 3000000000]]\<rparr>) \<and>
   script_call ''int takeCompound(int x, int y, float rate)'' sample_cloud 0 0 rate_7_10 =
     Some (7, sample_cloud\<lparr>density := [[3, 5/2], [1/2, 3000000000]]\<rparr>)"
proof -
  note v = sample_cloud_values
  have pre: "wf_grid (width sample_cloud) (height sample_cloud) (density sample_cloud) \<and>
      (0::int) \<le> 0 \<and> 0 < int (width sample_cloud) \<and> (0::int) \<le> 0 \<and> 0 < int (height sample_cloud)"
    using wf_sample_cloud by (simp add: sample_cloud_def)
  have rg: "- 2147483648 \<le> (10::int) \<and> (10::int) \<le> 2147483647 \<and>
      - 2147483648 \<le> (7::int) \<and> (7::int) \<le> 2147483647"
    by simp
  note inst = script_amountAvailable_takes [of sample_cloud 0 0 rate_7_10]
  have same: "script_call ''int amountAvailable(int x, int y, float rate)'' sample_cloud 0 0 rate_7_10 =
        script_call ''int takeCompound(int x, int y, float rate)'' sample_cloud 0 0 rate_7_10"
    by (rule inst [THEN conjunct1])
  have "script_call ''int amountAvailable(int x, int y, float rate)'' sample_cloud 0 0 rate_7_10 =
      Some (7, sample_cloud\<lparr>density :=
        (density sample_cloud)[nat 0 := (density sample_cloud ! nat 0)[nat 0 := (if (3::real) < 1 then 0 else 3)]]\<rparr>)"
    by (rule inst [THEN conjunct2, THEN conjunct2, THEN mp, OF pre, unfolded Let_def v, THEN mp, OF rg])
  then have run: "script_call ''int amountAvailable(int x, int y, float rate)'' sample_cloud 0 0 rate_7_10 =
      Some (7, sample_cloud\<lparr>density := [[3, 5/2], [1/2, 3000000000]]\<rparr>)"
    by (simp add: sample_cloud_def)
  moreover have "c_trunc (density sample_cloud ! 0 ! 0) = 10" "c_trunc (round32 (i2f 10 * rate_7_10)) = 7"
    using v by simp_all
  ultimately show ?thesis
    using wf_sample_cloud same by simp
qed

text \<open>
  The member \<^verbatim>\<open>amountAvailable\<close> of lines 83 to 95, which no registration and no
  call reaches, returns what \<^verbatim>\<open>takeCompound\<close> returns and leaves the component as
  it is.
\<close>

lemma amountAvailable_member:
  "map_option fst (amountAvailable c x y rate) = map_option fst (takeCompound c x y rate)"
  "amountAvailable c x y rate = Some (a, c') \<Longrightarrow> c' = c"
proof -
  show "amountAvailable c x y rate = Some (a, c') \<Longrightarrow> c' = c"
    by (auto simp: amountAvailable_def split: if_splits Option.bind_splits)
  show "map_option fst (amountAvailable c x y rate) = map_option fst (takeCompound c x y rate)"
    by (auto simp: amountAvailable_def takeCompound_def rd_def wr_def
        split: if_splits Option.bind_splits)
qed

section \<open>Rebasing the window\<close>

lemma Run_offsets_idle:
  assumes "\<bar>px - real_of_int (offsetX s)\<bar> \<le> real_of_int (c_div (c_div (int (width s)) 3 * gridSize s) 2)"
    and "\<bar>py - real_of_int (offsetY s)\<bar> \<le> real_of_int (c_div (c_div (int (height s)) 3 * gridSize s) 2)"
  shows "Run_offsets px py s = s"
  using assms by (simp add: Run_offsets_def abs_le_iff)

lemma Run_offsets_x:
  "offsetX (Run_offsets px py s) =
     (let W = c_div (int (width s)) 3 * gridSize s; T = c_div W 2;
          x1 = (if px > real_of_int (offsetX s + T) then offsetX s + W else offsetX s)
      in if px < real_of_int (x1 - T) then x1 - W else x1)"
  by (simp add: Run_offsets_def Let_def)

lemma Run_offsets_y:
  "offsetY (Run_offsets px py s) =
     (let W = c_div (int (height s)) 3 * gridSize s; T = c_div W 2;
          y1 = (if py > real_of_int (offsetY s + T) then offsetY s + W else offsetY s)
      in if py < real_of_int (y1 - T) then y1 - W else y1)"
  by (simp add: Run_offsets_def Let_def)

lemma Run_offsets_plane:
  assumes "\<not> (\<bar>px - real_of_int (offsetX s)\<bar> \<le> real_of_int (c_div (c_div (int (width s)) 3 * gridSize s) 2) \<and>
     \<bar>py - real_of_int (offsetY s)\<bar> \<le> real_of_int (c_div (c_div (int (height s)) 3 * gridSize s) 2))"
  shows "planePosition (Run_offsets px py s) = (offsetX (Run_offsets px py s), offsetY (Run_offsets px py s))"
proof -
  have "px > real_of_int (offsetX s + c_div (c_div (int (width s)) 3 * gridSize s) 2) \<or>
         py > real_of_int (offsetY s + c_div (c_div (int (height s)) 3 * gridSize s) 2) \<or>
         px < real_of_int (offsetX s - c_div (c_div (int (width s)) 3 * gridSize s) 2) \<or>
         py < real_of_int (offsetY s - c_div (c_div (int (height s)) 3 * gridSize s) 2)"
    using assms by (simp add: abs_le_iff) linarith
  then show ?thesis
    by (simp add: Run_offsets_def Let_def)
qed


text \<open>
  Claim C6. With \<open>Wx = width/3*gridSize\<close>, \<open>Tx = Wx/2\<close> (and \<open>Wy\<close>, \<open>Ty\<close> from
  \<^verbatim>\<open>height\<close>), all in C integer arithmetic:
  \<^item> the rebase triggers exactly when the position is outside the central third:
    when \<open>|px - offsetX| \<le> Tx\<close> and \<open>|py - offsetY| \<le> Ty\<close> the system is left as it
    is, and otherwise the block runs and moves the plane to the new offsets;
  \<^item> for a position beyond the +x threshold and at least \<open>Wx - Tx\<close> away (so for
    every displacement of one increment or more, however large), \<^verbatim>\<open>offsetX\<close> grows
    by exactly \<open>Wx\<close>;
  \<^item> the new \<^verbatim>\<open>offsetX\<close> is a function of \<open>px\<close> and the old \<^verbatim>\<open>offsetX\<close> alone, the
    new \<^verbatim>\<open>offsetY\<close> of \<open>py\<close> and the old \<^verbatim>\<open>offsetY\<close> alone, and each moves by 0 or by
    one increment up or down.
\<close>

theorem Run_offsets_single_increment:
  "(let s' = Run_offsets px py s;
        Wx = c_div (int (width s)) 3 * gridSize s; Tx = c_div Wx 2;
        Wy = c_div (int (height s)) 3 * gridSize s; Ty = c_div Wy 2
    in ((\<bar>px - real_of_int (offsetX s)\<bar> \<le> real_of_int Tx \<and>
         \<bar>py - real_of_int (offsetY s)\<bar> \<le> real_of_int Ty) \<longrightarrow> s' = s) \<and>
       (\<not> (\<bar>px - real_of_int (offsetX s)\<bar> \<le> real_of_int Tx \<and>
           \<bar>py - real_of_int (offsetY s)\<bar> \<le> real_of_int Ty) \<longrightarrow>
          planePosition s' = (offsetX s', offsetY s')) \<and>
       (real_of_int (offsetX s + Tx) < px \<and> real_of_int (offsetX s + Wx - Tx) \<le> px \<longrightarrow>
          offsetX s' = offsetX s + Wx) \<and>
       offsetX s' =
         (let x1 = (if px > real_of_int (offsetX s + Tx) then offsetX s + Wx else offsetX s)
          in if px < real_of_int (x1 - Tx) then x1 - Wx else x1) \<and>
       offsetY s' =
         (let y1 = (if py > real_of_int (offsetY s + Ty) then offsetY s + Wy else offsetY s)
          in if py < real_of_int (y1 - Ty) then y1 - Wy else y1) \<and>
       offsetX s' - offsetX s \<in> {0, Wx, - Wx} \<and>
       offsetY s' - offsetY s \<in> {0, Wy, - Wy})"
proof -
  define Wx where "Wx = c_div (int (width s)) 3 * gridSize s"
  define Wy where "Wy = c_div (int (height s)) 3 * gridSize s"
  define Tx where "Tx = c_div Wx 2"
  define Ty where "Ty = c_div Wy 2"
  define s' where "s' = Run_offsets px py s"
  have idle: "s' = s"
    if "\<bar>px - real_of_int (offsetX s)\<bar> \<le> real_of_int Tx \<and>
        \<bar>py - real_of_int (offsetY s)\<bar> \<le> real_of_int Ty"
    using that Run_offsets_idle [of px s py] by (simp add: s'_def Tx_def Ty_def Wx_def Wy_def)
  have plane: "planePosition s' = (offsetX s', offsetY s')"
    if "\<not> (\<bar>px - real_of_int (offsetX s)\<bar> \<le> real_of_int Tx \<and>
           \<bar>py - real_of_int (offsetY s)\<bar> \<le> real_of_int Ty)"
    using that Run_offsets_plane [of px s py] by (simp add: s'_def Tx_def Ty_def Wx_def Wy_def)
  have x: "offsetX s' =
         (let x1 = (if px > real_of_int (offsetX s + Tx) then offsetX s + Wx else offsetX s)
          in if px < real_of_int (x1 - Tx) then x1 - Wx else x1)"
    by (simp add: s'_def Run_offsets_x Let_def Tx_def Wx_def)
  have y: "offsetY s' =
         (let y1 = (if py > real_of_int (offsetY s + Ty) then offsetY s + Wy else offsetY s)
          in if py < real_of_int (y1 - Ty) then y1 - Wy else y1)"
    by (simp add: s'_def Run_offsets_y Let_def Ty_def Wy_def)
  have far: "offsetX s' = offsetX s + Wx"
    if "real_of_int (offsetX s + Tx) < px \<and> real_of_int (offsetX s + Wx - Tx) \<le> px"
    using that by (simp add: x Let_def)
  have dx: "offsetX s' - offsetX s \<in> {0, Wx, - Wx}"
    by (simp add: x Let_def)
  have dy: "offsetY s' - offsetY s \<in> {0, Wy, - Wy}"
    by (simp add: y Let_def)
  from idle plane x y far dx dy show ?thesis
    unfolding Let_def s'_def Tx_def Ty_def Wx_def Wy_def by blast
qed

theorem Run_offsets_single_increment_witness:
  "offsetX (Run_offsets 1000 0 sample_system) = 2 \<and>
   offsetY (Run_offsets 1000 0 sample_system) = 0 \<and>
   planePosition (Run_offsets 1000 0 sample_system) = (2, 0) \<and>
   Run_offsets (1/2) (-1) sample_system = sample_system"
  using Run_offsets_single_increment [of 1000 0 sample_system]
    Run_offsets_single_increment [of "1/2" "-1" sample_system]
  by (simp add: sample_system_def c_div_def Let_def)

text \<open>
  When \<open>Wx\<close> is odd, \<open>Tx < Wx - Tx\<close>: for a position between \<open>offsetX + Tx\<close> and
  \<open>offsetX + Wx - Tx\<close> the +x test adds \<open>Wx\<close> and the -x test, run on the new
  offset, takes it away again. Here \<open>Wx = 1\<close>, \<open>Tx = 0\<close>: the block runs (it moves
  the plane) and \<^verbatim>\<open>offsetX\<close> stays 0.
\<close>

lemma Run_offsets_sliver:
  "offsetX (Run_offsets (1/2) 0 (sample_system\<lparr>gridSize := 1\<rparr>)) = 0 \<and>
   planePosition (Run_offsets (1/2) 0 (sample_system\<lparr>gridSize := 1, planePosition := (7, 7)\<rparr>)) = (0, 0)"
  by (simp add: sample_system_def c_div_def Run_offsets_def Let_def)

subsection \<open>The rebase check when the observer stays in the central third\<close>

lemma Run_shift_sync:
  "offsetX c = offsetX s \<Longrightarrow> offsetY c = offsetY s \<Longrightarrow> Run_shift s c = Some c"
  by (simp add: Run_shift_def)

lemma shift_all_sync:
  "shift_all s cs = Some cs' \<Longrightarrow>
   length cs' = length cs \<and>
   (\<forall>i<length cs. offsetX (cs ! i) = offsetX s \<and> offsetY (cs ! i) = offsetY s \<longrightarrow> cs' ! i = cs ! i)"
proof (induction cs arbitrary: cs')
  case Nil
  then show ?case by simp
next
  case (Cons c cs)
  from Cons.prems obtain c' cs'' where
    c': "Run_shift s c = Some c'" and cs'': "shift_all s cs = Some cs''" and eq: "cs' = c' # cs''"
    by (auto split: option.splits)
  from Cons.IH [OF cs''] have ih: "length cs'' = length cs"
    "\<And>i. i < length cs \<Longrightarrow> offsetX (cs ! i) = offsetX s \<and> offsetY (cs ! i) = offsetY s \<Longrightarrow> cs'' ! i = cs ! i"
    by auto
  have "cs' ! i = (c # cs) ! i"
    if "i < length (c # cs)" "offsetX ((c # cs) ! i) = offsetX s \<and> offsetY ((c # cs) ! i) = offsetY s" for i
  proof (cases i)
    case 0
    with that c' show ?thesis by (simp add: eq Run_shift_sync)
  next
    case (Suc k)
    with that ih(2) [of k] show ?thesis by (simp add: eq)
  qed
  with ih(1) show ?case by (simp add: eq)
qed

lemma shift_all_all_sync:
  "(\<forall>c\<in>set cs. offsetX c = offsetX s \<and> offsetY c = offsetY s) \<Longrightarrow> shift_all s cs = Some cs"
  by (induction cs) (simp_all add: Run_shift_sync)

lemma repeatedly_idle_partial:
  assumes idle: "Run_offsets px py s = s"
  shows "repeatedly n (rebase_check px py) (s, cs1) = Some (s', cs') \<Longrightarrow>
     length cs1 = length cs \<Longrightarrow>
     (\<forall>i<length cs. offsetX (cs ! i) = offsetX s \<and> offsetY (cs ! i) = offsetY s \<longrightarrow> cs1 ! i = cs ! i) \<Longrightarrow>
     s' = s \<and> length cs' = length cs \<and>
     (\<forall>i<length cs. offsetX (cs ! i) = offsetX s \<and> offsetY (cs ! i) = offsetY s \<longrightarrow> cs' ! i = cs ! i)"
proof (induction n arbitrary: cs1)
  case 0
  then show ?case by simp
next
  case (Suc n)
  have step_eq: "rebase_check px py (s, cs1) =
      (case shift_all s cs1 of None \<Rightarrow> None | Some cs2 \<Rightarrow> Some (s, cs2))"
    by (simp add: rebase_check_def idle)
  from Suc.prems(1) obtain cs2 where
    step: "shift_all s cs1 = Some cs2" and
    rest: "repeatedly n (rebase_check px py) (s, cs2) = Some (s', cs')"
    by (auto simp: step_eq split: option.splits)
  from shift_all_sync [OF step] Suc.prems(2,3)
  have "length cs2 = length cs"
    "\<forall>i<length cs. offsetX (cs ! i) = offsetX s \<and> offsetY (cs ! i) = offsetY s \<longrightarrow> cs2 ! i = cs ! i"
    by auto
  with Suc.IH [OF rest] show ?case by blast
qed

lemma repeatedly_idle_total:
  assumes idle: "Run_offsets px py s = s"
    and sync: "\<forall>c\<in>set cs. offsetX c = offsetX s \<and> offsetY c = offsetY s"
  shows "repeatedly n (rebase_check px py) (s, cs) = Some (s, cs)"
proof -
  have "rebase_check px py (s, cs) = Some (s, cs)"
    by (simp add: rebase_check_def idle shift_all_all_sync [OF sync])
  then show ?thesis by (induction n) simp_all
qed

text \<open>
  Claim C8. When the position is within the central third, any number of rebase
  checks, as far as they run without leaving a grid, change neither the system
  (\<^verbatim>\<open>offsetX\<close> and \<^verbatim>\<open>offsetY\<close> included) nor any cloud whose cached offset equals the
  system's; and when every cloud's cached offset equals the system's they do run,
  and change nothing at all.
\<close>

theorem rebase_check_idle:
  assumes "\<bar>px - real_of_int (offsetX s)\<bar> \<le> real_of_int (c_div (c_div (int (width s)) 3 * gridSize s) 2)"
    and "\<bar>py - real_of_int (offsetY s)\<bar> \<le> real_of_int (c_div (c_div (int (height s)) 3 * gridSize s) 2)"
  shows "(\<forall>n s' cs'. repeatedly n (rebase_check px py) (s, cs) = Some (s', cs') \<longrightarrow>
            s' = s \<and> length cs' = length cs \<and>
            (\<forall>i<length cs. offsetX (cs ! i) = offsetX s \<and> offsetY (cs ! i) = offsetY s \<longrightarrow>
               cs' ! i = cs ! i)) \<and>
         ((\<forall>c\<in>set cs. offsetX c = offsetX s \<and> offsetY c = offsetY s) \<longrightarrow>
            (\<forall>n. repeatedly n (rebase_check px py) (s, cs) = Some (s, cs)))"
proof -
  have idle: "Run_offsets px py s = s"
    by (rule Run_offsets_idle [OF assms])
  show ?thesis
    using repeatedly_idle_partial [OF idle, of _ cs _ _ cs] repeatedly_idle_total [OF idle, of cs]
    by blast
qed


theorem rebase_check_idle_witness:
  "\<bar>1/2 - real_of_int (offsetX sample_system)\<bar>
     \<le> real_of_int (c_div (c_div (int (width sample_system)) 3 * gridSize sample_system) 2) \<and>
   \<bar>-1 - real_of_int (offsetY sample_system)\<bar>
     \<le> real_of_int (c_div (c_div (int (height sample_system)) 3 * gridSize sample_system) 2) \<and>
   repeatedly 2 (rebase_check (1/2) (-1)) (sample_system, [sample_cloud3 0, sample_cloud3 (-2)]) =
     Some (sample_system,
       [sample_cloud3 0, (sample_cloud3 0)\<lparr>density := [[4, 5, 6], [7, 8, 9], [0, 0, 0]]\<rparr>]) \<and>
   repeatedly 3 (rebase_check (1/2) (-1)) (sample_system, [sample_cloud3 0]) =
     Some (sample_system, [sample_cloud3 0])"
proof -
  have h1: "\<bar>1/2 - real_of_int (offsetX sample_system)\<bar>
     \<le> real_of_int (c_div (c_div (int (width sample_system)) 3 * gridSize sample_system) 2)"
    by (simp add: sample_system_def c_div_def)
  have h2: "\<bar>-1 - real_of_int (offsetY sample_system)\<bar>
     \<le> real_of_int (c_div (c_div (int (height sample_system)) 3 * gridSize sample_system) 2)"
    by (simp add: sample_system_def c_div_def)
  have idle: "Run_offsets (1/2) (-1) sample_system = sample_system"
    by (rule Run_offsets_idle [OF h1 h2])
  have sh: "Run_shift sample_system (sample_cloud3 (-2)) =
     Some ((sample_cloud3 0)\<lparr>density := [[4, 5, 6], [7, 8, 9], [0, 0, 0]]\<rparr>)"
    by (simp add: Run_shift_def sample_system_def sample_cloud3_def shift_right_cell_def
        rd_def wr_def upt_conv_Cons)
  have o: "offsetX (sample_cloud3 0) = offsetX sample_system"
    "offsetY (sample_cloud3 0) = offsetY sample_system"
    by (simp_all add: sample_system_def sample_cloud3_def)
  have s0: "Run_shift sample_system (sample_cloud3 0) = Some (sample_cloud3 0)"
    by (rule Run_shift_sync [OF o])
  have s1: "Run_shift sample_system
      ((sample_cloud3 0)\<lparr>density := [[4, 5, 6], [7, 8, 9], [0, 0, 0]]\<rparr>) =
     Some ((sample_cloud3 0)\<lparr>density := [[4, 5, 6], [7, 8, 9], [0, 0, 0]]\<rparr>)"
    by (rule Run_shift_sync) (simp_all add: o)
  have step1: "rebase_check (1/2) (-1) (sample_system, [sample_cloud3 0, sample_cloud3 (-2)]) =
     Some (sample_system,
       [sample_cloud3 0, (sample_cloud3 0)\<lparr>density := [[4, 5, 6], [7, 8, 9], [0, 0, 0]]\<rparr>])"
    by (simp add: rebase_check_def idle s0 sh)
  have step2: "rebase_check (1/2) (-1) (sample_system,
       [sample_cloud3 0, (sample_cloud3 0)\<lparr>density := [[4, 5, 6], [7, 8, 9], [0, 0, 0]]\<rparr>]) =
     Some (sample_system,
       [sample_cloud3 0, (sample_cloud3 0)\<lparr>density := [[4, 5, 6], [7, 8, 9], [0, 0, 0]]\<rparr>])"
    by (simp add: rebase_check_def idle s0 s1)
  have r2: "repeatedly 2 (rebase_check (1/2) (-1)) (sample_system, [sample_cloud3 0, sample_cloud3 (-2)]) =
     Some (sample_system,
       [sample_cloud3 0, (sample_cloud3 0)\<lparr>density := [[4, 5, 6], [7, 8, 9], [0, 0, 0]]\<rparr>])"
    by (simp add: numeral_2_eq_2 step1 step2)
  have "repeatedly 3 (rebase_check (1/2) (-1)) (sample_system, [sample_cloud3 0]) =
     Some (sample_system, [sample_cloud3 0])"
    using rebase_check_idle [OF h1 h2, of "[sample_cloud3 0]"]
    by (simp add: sample_system_def sample_cloud3_def)
  with h1 h2 r2 show ?thesis by blast
qed

section \<open>The diffusion step\<close>

lemma diffuse_cell_wf:
  assumes "wf_grid w h g" "wf_grid w h dens" "1 \<le> x" "x < w - 1" "1 \<le> y" "y < h - 1"
  shows "diffuse_cell a dens x y g =
     Some (g[x := (g ! x)[y := (dens ! x ! y +
        a * (g ! (x - 1) ! y + g ! (x + 1) ! y + g ! x ! (y - 1) + g ! x ! (y + 1))) / (1 + 4 * a)]])"
proof -
  have b: "x < w" "y < h" "x - 1 < w" "x + 1 < w" "y - 1 < h" "y + 1 < h"
    using assms by auto
  show ?thesis
    using assms(1,2) b by (simp add: diffuse_cell_def rd_wf wr_wf)
qed


lemma diffuse_row:
  assumes wf0: "wf_grid w h g0" and wfd: "wf_grid w h dens" and x: "1 \<le> x" "x < w - 1"
  shows "\<exists>g. for_each [1..<h - 1] (diffuse_cell a dens x) g0 = Some g \<and> wf_grid w h g \<and>
     (\<forall>i j. i < w \<longrightarrow> j < h \<longrightarrow> \<not> (i = x \<and> 1 \<le> j \<and> j < h - 1) \<longrightarrow> g ! i ! j = g0 ! i ! j) \<and>
     (\<forall>j. 1 \<le> j \<longrightarrow> j < h - 1 \<longrightarrow>
        g ! x ! j = (dens ! x ! j + a * (g0 ! (x - 1) ! j + g0 ! (x + 1) ! j +
                       g ! x ! (j - 1) + g0 ! x ! (j + 1))) / (1 + 4 * a))"
proof -
  define J where "J n g \<longleftrightarrow> wf_grid w h g \<and>
     (\<forall>i j. i < w \<longrightarrow> j < h \<longrightarrow> \<not> (i = x \<and> 1 \<le> j \<and> j < n) \<longrightarrow> g ! i ! j = g0 ! i ! j) \<and>
     (\<forall>j. 1 \<le> j \<longrightarrow> j < n \<longrightarrow>
        g ! x ! j = (dens ! x ! j + a * (g0 ! (x - 1) ! j + g0 ! (x + 1) ! j +
                       g ! x ! (j - 1) + g0 ! x ! (j + 1))) / (1 + 4 * a))" for n g
  have init: "J 1 g0"
    by (simp add: J_def wf0)
  have step: "\<exists>g'. diffuse_cell a dens x n g = Some g' \<and> J (Suc n) g'"
    if n: "1 \<le> n" "n < h - 1" and inv: "J n g" for n g
  proof -
    from inv have wfg: "wf_grid w h g"
      and frame: "\<And>i j. i < w \<Longrightarrow> j < h \<Longrightarrow> \<not> (i = x \<and> 1 \<le> j \<and> j < n) \<Longrightarrow> g ! i ! j = g0 ! i ! j"
      and past: "\<And>j. 1 \<le> j \<Longrightarrow> j < n \<Longrightarrow>
        g ! x ! j = (dens ! x ! j + a * (g0 ! (x - 1) ! j + g0 ! (x + 1) ! j +
                       g ! x ! (j - 1) + g0 ! x ! (j + 1))) / (1 + 4 * a)"
      by (auto simp: J_def)
    define v where "v = (dens ! x ! n +
        a * (g ! (x - 1) ! n + g ! (x + 1) ! n + g ! x ! (n - 1) + g ! x ! (n + 1))) / (1 + 4 * a)"
    define g' where "g' = g[x := (g ! x)[n := v]]"
    have cell: "diffuse_cell a dens x n g = Some g'"
      unfolding g'_def v_def by (rule diffuse_cell_wf [OF wfg wfd x n])
    have wf': "wf_grid w h g'"
      unfolding g'_def by (rule wf_update [OF wfg])
    have nth: "g' ! i ! j = (if i = x \<and> j = n then v else g ! i ! j)" if "i < w" "j < h" for i j
      unfolding g'_def by (rule nth_update [OF wfg that])
    have b: "x < w" "n < h" "x - 1 < w" "x + 1 < w" "n - 1 < h" "n + 1 < h"
      using x n by auto
    have v_eq: "v = (dens ! x ! n + a * (g0 ! (x - 1) ! n + g0 ! (x + 1) ! n +
                       g ! x ! (n - 1) + g0 ! x ! (n + 1))) / (1 + 4 * a)"
      unfolding v_def using frame [of "x - 1" n] frame [of "x + 1" n] frame [of x "n + 1"] b x
      by simp
    have f': "g' ! i ! j = g0 ! i ! j" if "i < w" "j < h" "\<not> (i = x \<and> 1 \<le> j \<and> j < Suc n)" for i j
      using that nth [of i j] frame [of i j] n by auto
    have p': "g' ! x ! j = (dens ! x ! j + a * (g0 ! (x - 1) ! j + g0 ! (x + 1) ! j +
                       g' ! x ! (j - 1) + g0 ! x ! (j + 1))) / (1 + 4 * a)"
      if j: "1 \<le> j" "j < Suc n" for j
    proof -
      have jb: "j < h" "j - 1 < h" using j n by auto
      have prev: "g' ! x ! (j - 1) = g ! x ! (j - 1)"
        using nth [OF b(1) jb(2)] j by auto
      show ?thesis
      proof (cases "j = n")
        case True
        with nth [OF b(1) jb(1)] v_eq prev show ?thesis by simp
      next
        case False
        with j have "j < n" by simp
        from past [OF j(1) this] nth [OF b(1) jb(1)] False prev show ?thesis by simp
      qed
    qed
    from wf' f' p' have "J (Suc n) g'"
      unfolding J_def by blast
    with cell show ?thesis by blast
  qed
  from for_each_invariant [of J 1 g0 "h - 1" "diffuse_cell a dens x", OF init step]
  obtain g where g: "for_each [1..<h - 1] (diffuse_cell a dens x) g0 = Some g" "J (max 1 (h - 1)) g"
    by blast
  have "1 \<le> j \<and> j < max 1 (h - 1) \<longleftrightarrow> 1 \<le> j \<and> j < h - 1" for j
    by auto
  with g(2) have "J (h - 1) g"
    unfolding J_def by simp
  with g(1) show ?thesis
    unfolding J_def by blast
qed


lemma diffuse_sweep:
  assumes wfo: "wf_grid (width s) (height s) old" and wfd: "wf_grid (width s) (height s) dens"
  shows "\<exists>g. diffuse s rate old dens dt = Some g \<and> wf_grid (width s) (height s) g \<and>
     (\<forall>i j. i < width s \<longrightarrow> j < height s \<longrightarrow>
        \<not> (1 \<le> i \<and> i < width s - 1 \<and> 1 \<le> j \<and> j < height s - 1) \<longrightarrow> g ! i ! j = old ! i ! j) \<and>
     (\<forall>i j. 1 \<le> i \<longrightarrow> i < width s - 1 \<longrightarrow> 1 \<le> j \<longrightarrow> j < height s - 1 \<longrightarrow>
        g ! i ! j = (dens ! i ! j + rate * (g ! (i - 1) ! j + old ! (i + 1) ! j +
                       g ! i ! (j - 1) + old ! i ! (j + 1))) / (1 + 4 * rate))"
proof -
  define w h where "w = width s" and "h = height s"
  note wfo' = wfo [folded w_def h_def] and wfd' = wfd [folded w_def h_def]
  define I where "I m g \<longleftrightarrow> wf_grid w h g \<and>
     (\<forall>i j. i < w \<longrightarrow> j < h \<longrightarrow> \<not> (1 \<le> i \<and> i < m \<and> 1 \<le> j \<and> j < h - 1) \<longrightarrow> g ! i ! j = old ! i ! j) \<and>
     (\<forall>i j. 1 \<le> i \<longrightarrow> i < m \<longrightarrow> 1 \<le> j \<longrightarrow> j < h - 1 \<longrightarrow>
        g ! i ! j = (dens ! i ! j + rate * (g ! (i - 1) ! j + old ! (i + 1) ! j +
                       g ! i ! (j - 1) + old ! i ! (j + 1))) / (1 + 4 * rate))" for m g
  have init: "I 1 old"
    by (simp add: I_def wfo')
  have step: "\<exists>g'. for_each [1..<h - 1] (diffuse_cell rate dens m) g = Some g' \<and> I (Suc m) g'"
    if m: "1 \<le> m" "m < w - 1" and inv: "I m g" for m g
  proof -
    from inv have wfg: "wf_grid w h g"
      and frame: "\<And>i j. i < w \<Longrightarrow> j < h \<Longrightarrow> \<not> (1 \<le> i \<and> i < m \<and> 1 \<le> j \<and> j < h - 1) \<Longrightarrow>
         g ! i ! j = old ! i ! j"
      and past: "\<And>i j. 1 \<le> i \<Longrightarrow> i < m \<Longrightarrow> 1 \<le> j \<Longrightarrow> j < h - 1 \<Longrightarrow>
        g ! i ! j = (dens ! i ! j + rate * (g ! (i - 1) ! j + old ! (i + 1) ! j +
                       g ! i ! (j - 1) + old ! i ! (j + 1))) / (1 + 4 * rate)"
      by (auto simp: I_def)
    from diffuse_row [OF wfg wfd' m, of rate] obtain g' where
      run: "for_each [1..<h - 1] (diffuse_cell rate dens m) g = Some g'" and wf': "wf_grid w h g'"
      and rframe: "\<And>i j. i < w \<Longrightarrow> j < h \<Longrightarrow> \<not> (i = m \<and> 1 \<le> j \<and> j < h - 1) \<Longrightarrow> g' ! i ! j = g ! i ! j"
      and row: "\<And>j. 1 \<le> j \<Longrightarrow> j < h - 1 \<Longrightarrow>
        g' ! m ! j = (dens ! m ! j + rate * (g ! (m - 1) ! j + g ! (m + 1) ! j +
                       g' ! m ! (j - 1) + g ! m ! (j + 1))) / (1 + 4 * rate)"
      by blast
    have f': "g' ! i ! j = old ! i ! j"
      if "i < w" "j < h" "\<not> (1 \<le> i \<and> i < Suc m \<and> 1 \<le> j \<and> j < h - 1)" for i j
      using that rframe [of i j] frame [of i j] m by auto
    have p': "g' ! i ! j = (dens ! i ! j + rate * (g' ! (i - 1) ! j + old ! (i + 1) ! j +
                       g' ! i ! (j - 1) + old ! i ! (j + 1))) / (1 + 4 * rate)"
      if ij: "1 \<le> i" "i < Suc m" "1 \<le> j" "j < h - 1" for i j
    proof -
      have b: "i < w" "i - 1 < w" "i + 1 < w" "j < h" "j - 1 < h" "j + 1 < h"
        using ij m by auto
      have left: "g' ! (i - 1) ! j = g ! (i - 1) ! j"
        using rframe [OF b(2,4)] ij by auto
      show ?thesis
      proof (cases "i = m")
        case True
        have "g ! (m + 1) ! j = old ! (m + 1) ! j"
          using frame [of "m + 1" j] b True by simp
        moreover have "g ! m ! (j + 1) = old ! m ! (j + 1)"
          using frame [of m "j + 1"] b True by simp
        ultimately show ?thesis
          using row [OF ij(3,4)] left True by simp
      next
        case False
        with ij have lt: "i < m" by simp
        have "g' ! i ! j = g ! i ! j"
          using rframe [OF b(1,4)] False by simp
        moreover have "g' ! i ! (j - 1) = g ! i ! (j - 1)"
          using rframe [OF b(1,5)] False by simp
        ultimately show ?thesis
          using past [OF ij(1) lt ij(3,4)] left by simp
      qed
    qed
    from wf' f' p' have "I (Suc m) g'"
      unfolding I_def by blast
    with run show ?thesis by blast
  qed
  from for_each_invariant [of I 1 old "w - 1"
      "\<lambda>x. for_each [1..<h - 1] (diffuse_cell rate dens x)", OF init step]
  obtain g where g: "for_each [1..<w - 1] (\<lambda>x. for_each [1..<h - 1] (diffuse_cell rate dens x)) old = Some g"
    "I (max 1 (w - 1)) g"
    by blast
  have "1 \<le> i \<and> i < max 1 (w - 1) \<longleftrightarrow> 1 \<le> i \<and> i < w - 1" for i
    by auto
  with g(2) have "I (w - 1) g"
    unfolding I_def by simp
  moreover from g(1) have "diffuse s rate old dens dt = Some g"
    by (simp add: diffuse_def w_def h_def)
  ultimately show ?thesis
    unfolding I_def w_def h_def by blast
qed

text \<open>
  Claim C3. On a scratch buffer and a density of \<^verbatim>\<open>width\<close> by \<^verbatim>\<open>height\<close> cells,
  \<^verbatim>\<open>diffuse\<close> returns (it reads and writes inside the grids only) and, with
  \<open>a = dt * rate\<close> for the \<open>dt = 1\<close> the function sets, the buffer \<open>g\<close> it leaves
  satisfies at every interior cell
  \<open>g[x][y] = (density[x][y] + a * (g[x-1][y] + old[x+1][y] + g[x][y-1] + old[x][y+1])) / (1 + 4a)\<close>:
  the neighbours at \<open>x-1\<close> and \<open>y-1\<close> are read as the sweep has already left them,
  those at \<open>x+1\<close> and \<open>y+1\<close> as they were on entry (x outer, y inner, ascending).
  The border cells of the buffer are as on entry.
\<close>

theorem diffuse_single_sweep:
  assumes "wf_grid (width s) (height s) old" and "wf_grid (width s) (height s) dens"
  shows "\<exists>g. diffuse s rate old dens dt = Some g \<and> wf_grid (width s) (height s) g \<and>
     (\<forall>x y. 1 \<le> x \<longrightarrow> x + 2 \<le> width s \<longrightarrow> 1 \<le> y \<longrightarrow> y + 2 \<le> height s \<longrightarrow>
        g ! x ! y = (let a = 1 * rate in
          (dens ! x ! y + a * (g ! (x - 1) ! y + old ! (x + 1) ! y +
             g ! x ! (y - 1) + old ! x ! (y + 1))) / (1 + 4 * a))) \<and>
     (\<forall>x y. x < width s \<longrightarrow> y < height s \<longrightarrow>
        x = 0 \<or> x = width s - 1 \<or> y = 0 \<or> y = height s - 1 \<longrightarrow> g ! x ! y = old ! x ! y)"
proof -
  from diffuse_sweep [OF assms, of rate dt] obtain g where
    g: "diffuse s rate old dens dt = Some g" "wf_grid (width s) (height s) g"
    and frame: "\<And>i j. i < width s \<Longrightarrow> j < height s \<Longrightarrow>
        \<not> (1 \<le> i \<and> i < width s - 1 \<and> 1 \<le> j \<and> j < height s - 1) \<Longrightarrow> g ! i ! j = old ! i ! j"
    and cells: "\<And>i j. 1 \<le> i \<Longrightarrow> i < width s - 1 \<Longrightarrow> 1 \<le> j \<Longrightarrow> j < height s - 1 \<Longrightarrow>
        g ! i ! j = (dens ! i ! j + rate * (g ! (i - 1) ! j + old ! (i + 1) ! j +
                       g ! i ! (j - 1) + old ! i ! (j + 1))) / (1 + 4 * rate)"
    by blast
  have "g ! x ! y = (let a = 1 * rate in
          (dens ! x ! y + a * (g ! (x - 1) ! y + old ! (x + 1) ! y +
             g ! x ! (y - 1) + old ! x ! (y + 1))) / (1 + 4 * a))"
    if "1 \<le> x" "x + 2 \<le> width s" "1 \<le> y" "y + 2 \<le> height s" for x y
    using cells [of x y] that by simp
  moreover have "g ! x ! y = old ! x ! y"
    if "x < width s" "y < height s" "x = 0 \<or> x = width s - 1 \<or> y = 0 \<or> y = height s - 1" for x y
    using frame [of x y] that by auto
  ultimately show ?thesis
    using g by blast
qed

theorem diffuse_single_sweep_witness:
  "wf_grid (width sample_system) (height sample_system) (density (sample_cloud3 0)) \<and>
   wf_grid (width sample_system) (height sample_system) (zero_grid 3 3) \<and>
   cell_of (diffuse sample_system (1/4) (density (sample_cloud3 0)) (zero_grid 3 3) 7) 1 1 = Some (5/2) \<and>
   cell_of (diffuse sample_system (1/4) (density (sample_cloud3 0)) (zero_grid 3 3) 7) 0 1 = Some 2"
proof -
  have wf1: "wf_grid (width sample_system) (height sample_system) (density (sample_cloud3 0))"
    by (simp add: wf_grid_def sample_system_def sample_cloud3_def)
  have wf2: "wf_grid (width sample_system) (height sample_system) (zero_grid 3 3)"
    by (simp add: wf_grid_def sample_system_def zero_grid_def)
  from diffuse_single_sweep [OF wf1 wf2, of "1/4" 7] obtain g where
    g: "diffuse sample_system (1/4) (density (sample_cloud3 0)) (zero_grid 3 3) 7 = Some g"
      "wf_grid (width sample_system) (height sample_system) g"
    and cells: "\<And>x y. 1 \<le> x \<Longrightarrow> x + 2 \<le> width sample_system \<Longrightarrow> 1 \<le> y \<Longrightarrow> y + 2 \<le> height sample_system \<Longrightarrow>
        g ! x ! y = (let a = 1 * (1/4) in
          (zero_grid 3 3 ! x ! y + a * (g ! (x - 1) ! y + density (sample_cloud3 0) ! (x + 1) ! y +
             g ! x ! (y - 1) + density (sample_cloud3 0) ! x ! (y + 1))) / (1 + 4 * a))"
    and border: "\<And>x y. x < width sample_system \<Longrightarrow> y < height sample_system \<Longrightarrow>
        x = 0 \<or> x = width sample_system - 1 \<or> y = 0 \<or> y = height sample_system - 1 \<Longrightarrow>
        g ! x ! y = density (sample_cloud3 0) ! x ! y"
    by blast
  have b01: "g ! 0 ! 1 = 2" and b10: "g ! 1 ! 0 = 4"
    using border [of 0 1] border [of 1 0] by (simp_all add: sample_system_def sample_cloud3_def)
  have "g ! 1 ! 1 = 5/2"
    using cells [of 1 1] b01 b10
    by (simp add: sample_system_def sample_cloud3_def zero_grid_def)
  moreover have "rd g 1 1 = Some (g ! 1 ! 1)" "rd g 0 1 = Some (g ! 0 ! 1)"
    using g(2) by (simp_all add: rd_wf sample_system_def)
  ultimately show ?thesis
    using wf1 wf2 g(1) b01 by (simp add: cell_of_def)
qed

subsection \<open>The diffusion step of the end-to-end scenario\<close>

lemma scenario_diffuse_grid:
  "diffuse scenario_system (1/100) (zero_grid 6 6) scenario_density dt =
     Some [[0, 0, 0, 0, 0, 0], [0, 0, 0, 0, 0, 0], [0, 0, 0, 0, 0, 0],
           [0, 0, 0, 1250 / 13, 625 / 676, 0],
           [0, 0, 0, 625 / 676, 625 / 35152, 0], [0, 0, 0, 0, 0, 0]]"
  by (simp add: diffuse_def scenario_system_def scenario_density_def zero_grid_def
      diffuse_cell_def rd_def wr_def upt_conv_Cons numeral_eq_Suc)

text \<open>
  Claim C2, as amended. In the 6 by 6 scenario one diffusion step leaves
  \<open>100 / (1 + 0.04)\<close> in cell (3,3) and exactly 0 in cells (2,3) and (3,2), which the
  sweep visits before (3,3); cells (4,3) and (3,4), visited after it, read the new
  value of (3,3) and hold \<open>0.01 * (100 / 1.04) / 1.04\<close>, about 0.92.
\<close>

theorem scenario_diffusion:
  "cell_of (diffuse scenario_system (1/100) (zero_grid 6 6) scenario_density dt) 3 3
     = Some (100 / (1 + 4/100)) \<and>
   cell_of (diffuse scenario_system (1/100) (zero_grid 6 6) scenario_density dt) 2 3 = Some 0 \<and>
   cell_of (diffuse scenario_system (1/100) (zero_grid 6 6) scenario_density dt) 3 2 = Some 0 \<and>
   cell_of (diffuse scenario_system (1/100) (zero_grid 6 6) scenario_density dt) 4 3
     = Some ((1/100) * (100 / (1 + 4/100)) / (1 + 4/100)) \<and>
   cell_of (diffuse scenario_system (1/100) (zero_grid 6 6) scenario_density dt) 3 4
     = Some ((1/100) * (100 / (1 + 4/100)) / (1 + 4/100))"
  by (simp add: scenario_diffuse_grid cell_of_def rd_def)

text \<open>
  Claim C2 as stated, with all four neighbours of (3,3) at exactly 0, fails.
\<close>

theorem scenario_neighbours_counterexample:
  "\<not> (cell_of (diffuse scenario_system (1/100) (zero_grid 6 6) scenario_density 1) 3 3
        = Some (100 / (1 + 4/100)) \<and>
      cell_of (diffuse scenario_system (1/100) (zero_grid 6 6) scenario_density 1) 2 3 = Some 0 \<and>
      cell_of (diffuse scenario_system (1/100) (zero_grid 6 6) scenario_density 1) 4 3 = Some 0 \<and>
      cell_of (diffuse scenario_system (1/100) (zero_grid 6 6) scenario_density 1) 3 2 = Some 0 \<and>
      cell_of (diffuse scenario_system (1/100) (zero_grid 6 6) scenario_density 1) 3 4 = Some 0)"
  by (simp add: scenario_diffuse_grid cell_of_def rd_def)

section \<open>The advection step\<close>

lemma clamp_coord_range:
  assumes "2 \<le> n"
  shows "clamp_coord n d = max (1/2) (min (real n - 3/2) d)"
    and "1/2 \<le> clamp_coord n d" and "clamp_coord n d \<le> real n - 3/2"
  using assms by (auto simp: clamp_coord_def Let_def max_def min_def)

lemma c_trunc_range:
  assumes "1/2 \<le> v" "v \<le> real n - 3/2"
  shows "c_trunc v = \<lfloor>v\<rfloor>" and "0 \<le> c_trunc v" and "c_trunc v + 2 \<le> int n"
proof -
  from assms show t: "c_trunc v = \<lfloor>v\<rfloor>" by (simp add: c_trunc_def)
  from assms show "0 \<le> c_trunc v" by (simp add: t)
  have "real_of_int \<lfloor>v\<rfloor> \<le> real n - 3/2" using assms by linarith
  then have "real_of_int (\<lfloor>v\<rfloor> + 2) < real_of_int (int n + 1)" by simp
  then have "\<lfloor>v\<rfloor> + 2 < int n + 1" by (simp only: of_int_less_iff)
  then show "c_trunc v + 2 \<le> int n" by (simp add: t)
qed

lemma add_at_char:
  assumes wf: "wf_grid w h g" and b: "0 \<le> x" "x < int w" "0 \<le> y" "y < int h"
  shows "\<exists>g'. add_at g x y v = Some g' \<and> wf_grid w h g' \<and>
     (\<forall>i j. i < w \<longrightarrow> j < h \<longrightarrow> g' ! i ! j = g ! i ! j + (if int i = x \<and> int j = y then v else 0))"
proof -
  have nb: "nat x < w" "nat y < h" using b by auto
  let ?g' = "g[nat x := (g ! nat x)[nat y := g ! nat x ! nat y + v]]"
  have "add_at g x y v = Some ?g'"
    using b by (simp add: add_at_def rd_wf [OF wf nb] wr_wf [OF wf nb])
  moreover have "wf_grid w h ?g'" by (rule wf_update [OF wf])
  moreover have "?g' ! i ! j = g ! i ! j + (if int i = x \<and> int j = y then v else 0)"
    if "i < w" "j < h" for i j
    using nth_update [OF wf that, of "nat x" "nat y"] b by auto
  ultimately show ?thesis by blast
qed


lemma advect_cell_char:
  assumes wfg: "wf_grid (width s) (height s) g" and wfo: "wf_grid (width s) (height s) old"
    and wfx: "wf_grid (width s) (height s) (xVelocity s)"
    and wfy: "wf_grid (width s) (height s) (yVelocity s)"
    and xy: "1 \<le> x" "x < width s - 1" "1 \<le> y" "y < height s - 1"
  shows "\<exists>g'. advect_cell s 1 old x y g = Some g' \<and> wf_grid (width s) (height s) g' \<and>
     (\<forall>i j. i < width s \<longrightarrow> j < height s \<longrightarrow> g' ! i ! j = g ! i ! j + advect_share s old x y i j)"
proof -
  have b: "x < width s" "y < height s" "2 \<le> width s" "2 \<le> height s" using xy by auto
  note r = rd_wf [OF wfo b(1,2)] rd_wf [OF wfx b(1,2)] rd_wf [OF wfy b(1,2)]
  show ?thesis
  proof (cases "old ! x ! y > 1")
    case False
    then show ?thesis
      using wfg by (simp add: advect_cell_def r advect_share_def)
  next
    case True
    let ?od = "old ! x ! y"
    let ?dx = "clamp_coord (width s) (real x + xVelocity s ! x ! y)"
    let ?dy = "clamp_coord (height s) (real y + yVelocity s ! x ! y)"
    let ?x0 = "c_trunc ?dx" and ?y0 = "c_trunc ?dy"
    let ?s1 = "?dx - real_of_int ?x0" and ?t1 = "?dy - real_of_int ?y0"
    note cx = clamp_coord_range [OF b(3), of "real x + xVelocity s ! x ! y"]
    note cy = clamp_coord_range [OF b(4), of "real y + yVelocity s ! x ! y"]
    note tx = c_trunc_range [OF cx(2,3)] and ty = c_trunc_range [OF cy(2,3)]
    have bx0: "0 \<le> ?x0" "?x0 < int (width s)" and bx1: "0 \<le> ?x0 + 1" "?x0 + 1 < int (width s)"
      using tx(2,3) by auto
    have by0: "0 \<le> ?y0" "?y0 < int (height s)" and by1: "0 \<le> ?y0 + 1" "?y0 + 1 < int (height s)"
      using ty(2,3) by auto
    from add_at_char [OF wfg bx0 by0, of "?od * (1 - ?s1) * (1 - ?t1)"] obtain g1 where
      g1: "add_at g ?x0 ?y0 (?od * (1 - ?s1) * (1 - ?t1)) = Some g1" "wf_grid (width s) (height s) g1"
      "\<And>i j. i < width s \<Longrightarrow> j < height s \<Longrightarrow>
         g1 ! i ! j = g ! i ! j + (if int i = ?x0 \<and> int j = ?y0 then ?od * (1 - ?s1) * (1 - ?t1) else 0)"
      by blast
    from add_at_char [OF g1(2) bx0 by1, of "?od * (1 - ?s1) * ?t1"] obtain g2 where
      g2: "add_at g1 ?x0 (?y0 + 1) (?od * (1 - ?s1) * ?t1) = Some g2" "wf_grid (width s) (height s) g2"
      "\<And>i j. i < width s \<Longrightarrow> j < height s \<Longrightarrow>
         g2 ! i ! j = g1 ! i ! j + (if int i = ?x0 \<and> int j = ?y0 + 1 then ?od * (1 - ?s1) * ?t1 else 0)"
      by blast
    from add_at_char [OF g2(2) bx1 by0, of "?od * ?s1 * (1 - ?t1)"] obtain g3 where
      g3: "add_at g2 (?x0 + 1) ?y0 (?od * ?s1 * (1 - ?t1)) = Some g3" "wf_grid (width s) (height s) g3"
      "\<And>i j. i < width s \<Longrightarrow> j < height s \<Longrightarrow>
         g3 ! i ! j = g2 ! i ! j + (if int i = ?x0 + 1 \<and> int j = ?y0 then ?od * ?s1 * (1 - ?t1) else 0)"
      by blast
    from add_at_char [OF g3(2) bx1 by1, of "?od * ?s1 * ?t1"] obtain g4 where
      g4: "add_at g3 (?x0 + 1) (?y0 + 1) (?od * ?s1 * ?t1) = Some g4" "wf_grid (width s) (height s) g4"
      "\<And>i j. i < width s \<Longrightarrow> j < height s \<Longrightarrow>
         g4 ! i ! j = g3 ! i ! j + (if int i = ?x0 + 1 \<and> int j = ?y0 + 1 then ?od * ?s1 * ?t1 else 0)"
      by blast
    have run: "advect_cell s 1 old x y g = Some g4"
      using True g1(1) g2(1) g3(1) g4(1) by (simp add: advect_cell_def r Let_def)
    have share: "advect_share s old x y i j =
        (if int i = ?x0 \<and> int j = ?y0 then ?od * (1 - ?s1) * (1 - ?t1) else 0) +
        (if int i = ?x0 \<and> int j = ?y0 + 1 then ?od * (1 - ?s1) * ?t1 else 0) +
        (if int i = ?x0 + 1 \<and> int j = ?y0 then ?od * ?s1 * (1 - ?t1) else 0) +
        (if int i = ?x0 + 1 \<and> int j = ?y0 + 1 then ?od * ?s1 * ?t1 else 0)" for i j
    proof -
      have ex: "max (1/2) (min (real (width s) - 3/2) (real x + 1 * xVelocity s ! x ! y)) = ?dx"
        using cx(1) by simp
      have ey: "max (1/2) (min (real (height s) - 3/2) (real y + 1 * yVelocity s ! x ! y)) = ?dy"
        using cy(1) by simp
      have fx: "\<lfloor>?dx\<rfloor> = ?x0" and fy: "\<lfloor>?dy\<rfloor> = ?y0"
        using tx(1) ty(1) by simp_all
      show ?thesis
        unfolding advect_share_def Let_def ex ey fx fy using True by (simp only: if_True)
    qed
    have "g4 ! i ! j = g ! i ! j + advect_share s old x y i j" if "i < width s" "j < height s" for i j
      unfolding share using g1(3) [OF that] g2(3) [OF that] g3(3) [OF that] g4(3) [OF that]
      by simp
    with run g4(2) show ?thesis by blast
  qed
qed


lemma upt_max_eq: "[lo..<max lo hi] = [lo..<hi]"
  by (simp add: max_def)

lemma zero_fill:
  assumes wf: "wf_grid w h g"
  shows "\<exists>g'. for_each [0..<w] (\<lambda>x. for_each [0..<h] (\<lambda>y d. wr d x y 0)) g = Some g' \<and>
     wf_grid w h g' \<and> (\<forall>i j. i < w \<longrightarrow> j < h \<longrightarrow> g' ! i ! j = 0)"
proof -
  define I where "I m d \<longleftrightarrow> wf_grid w h d \<and> (\<forall>i j. i < m \<longrightarrow> j < h \<longrightarrow> d ! i ! j = 0)" for m d
  have init: "I 0 g" by (simp add: I_def wf)
  have step: "\<exists>d'. for_each [0..<h] (\<lambda>y d. wr d m y 0) d = Some d' \<and> I (Suc m) d'"
    if m: "0 \<le> m" "m < w" and inv: "I m d" for m d
  proof -
    define J where "J n e \<longleftrightarrow> wf_grid w h e \<and> (\<forall>i j. i < m \<longrightarrow> j < h \<longrightarrow> e ! i ! j = 0) \<and>
       (\<forall>j. j < n \<longrightarrow> e ! m ! j = 0)" for n e
    have jinit: "J 0 d" using inv by (simp add: J_def I_def)
    have jstep: "\<exists>e'. wr e m n 0 = Some e' \<and> J (Suc n) e'" if n: "0 \<le> n" "n < h" and j: "J n e" for n e
    proof -
      from j have wfe: "wf_grid w h e" by (simp add: J_def)
      have "J (Suc n) (e[m := (e ! m)[n := 0]])"
        using j m n unfolding J_def
        by (auto simp: wf_update [OF wfe] nth_update [OF wfe] less_Suc_eq)
      then show ?thesis by (simp add: wr_wf [OF wfe m(2) n(2)])
    qed
    from for_each_invariant [of J 0 d h "\<lambda>y d. wr d m y 0", OF jinit jstep]
    obtain d' where "for_each [0..<h] (\<lambda>y d. wr d m y 0) d = Some d'" "J h d'"
      by auto
    moreover from this(2) have "I (Suc m) d'"
      unfolding J_def I_def by (auto simp: less_Suc_eq)
    ultimately show ?thesis by blast
  qed
  from for_each_invariant [of I 0 g w "\<lambda>x. for_each [0..<h] (\<lambda>y d. wr d x y 0)", OF init step]
  show ?thesis by (auto simp: I_def)
qed

lemma advect_row:
  assumes wfg: "wf_grid (width s) (height s) g" and wfo: "wf_grid (width s) (height s) old"
    and wfx: "wf_grid (width s) (height s) (xVelocity s)"
    and wfy: "wf_grid (width s) (height s) (yVelocity s)"
    and x: "1 \<le> x" "x < width s - 1"
  shows "\<exists>g'. for_each [1..<height s - 1] (advect_cell s 1 old x) g = Some g' \<and>
     wf_grid (width s) (height s) g' \<and>
     (\<forall>i j. i < width s \<longrightarrow> j < height s \<longrightarrow>
        g' ! i ! j = g ! i ! j + (\<Sum>y\<leftarrow>[1..<height s - 1]. advect_share s old x y i j))"
proof -
  define J where "J n e \<longleftrightarrow> wf_grid (width s) (height s) e \<and>
     (\<forall>i j. i < width s \<longrightarrow> j < height s \<longrightarrow>
        e ! i ! j = g ! i ! j + (\<Sum>y\<leftarrow>[1..<n]. advect_share s old x y i j))" for n e
  have init: "J 1 g" by (simp add: J_def wfg)
  have step: "\<exists>e'. advect_cell s 1 old x n e = Some e' \<and> J (Suc n) e'"
    if n: "1 \<le> n" "n < height s - 1" and j: "J n e" for n e
  proof -
    from j have wfe: "wf_grid (width s) (height s) e" by (simp add: J_def)
    from advect_cell_char [OF wfe wfo wfx wfy x n] obtain e' where
      e': "advect_cell s 1 old x n e = Some e'" "wf_grid (width s) (height s) e'"
      "\<And>i j. i < width s \<Longrightarrow> j < height s \<Longrightarrow> e' ! i ! j = e ! i ! j + advect_share s old x n i j"
      by blast
    have "J (Suc n) e'"
      using j e'(2,3) n(1) unfolding J_def by simp
    with e'(1) show ?thesis by blast
  qed
  from for_each_invariant [of J 1 g "height s - 1" "advect_cell s 1 old x", OF init step]
  show ?thesis by (auto simp: J_def upt_max_eq)
qed

lemma advect_char:
  assumes wfg: "wf_grid (width s) (height s) dens" and wfo: "wf_grid (width s) (height s) old"
    and wfx: "wf_grid (width s) (height s) (xVelocity s)"
    and wfy: "wf_grid (width s) (height s) (yVelocity s)"
  shows "\<exists>g. advect s old dens dt = Some g \<and> wf_grid (width s) (height s) g \<and>
     (\<forall>i j. i < width s \<longrightarrow> j < height s \<longrightarrow>
        g ! i ! j = (\<Sum>x\<leftarrow>[1..<width s - 1]. \<Sum>y\<leftarrow>[1..<height s - 1]. advect_share s old x y i j))"
proof -
  from zero_fill [OF wfg] obtain z where
    z: "for_each [0..<width s] (\<lambda>x. for_each [0..<height s] (\<lambda>y d. wr d x y 0)) dens = Some z"
      "wf_grid (width s) (height s) z"
      "\<And>i j. i < width s \<Longrightarrow> j < height s \<Longrightarrow> z ! i ! j = 0"
    by blast
  define I where "I m e \<longleftrightarrow> wf_grid (width s) (height s) e \<and>
     (\<forall>i j. i < width s \<longrightarrow> j < height s \<longrightarrow>
        e ! i ! j = (\<Sum>x\<leftarrow>[1..<m]. \<Sum>y\<leftarrow>[1..<height s - 1]. advect_share s old x y i j))" for m e
  have init: "I 1 z" using z(2,3) by (simp add: I_def)
  have step: "\<exists>e'. for_each [1..<height s - 1] (advect_cell s 1 old m) e = Some e' \<and> I (Suc m) e'"
    if m: "1 \<le> m" "m < width s - 1" and inv: "I m e" for m e
  proof -
    from inv have wfe: "wf_grid (width s) (height s) e" by (simp add: I_def)
    from advect_row [OF wfe wfo wfx wfy m] obtain e' where
      e': "for_each [1..<height s - 1] (advect_cell s 1 old m) e = Some e'"
      "wf_grid (width s) (height s) e'"
      "\<And>i j. i < width s \<Longrightarrow> j < height s \<Longrightarrow>
         e' ! i ! j = e ! i ! j + (\<Sum>y\<leftarrow>[1..<height s - 1]. advect_share s old m y i j)"
      by blast
    have "I (Suc m) e'"
      using inv e'(2,3) m(1) unfolding I_def by simp
    with e'(1) show ?thesis by blast
  qed
  from for_each_invariant [of I 1 z "width s - 1"
      "\<lambda>x. for_each [1..<height s - 1] (advect_cell s 1 old x)", OF init step]
  obtain g where g: "for_each [1..<width s - 1]
      (\<lambda>x. for_each [1..<height s - 1] (advect_cell s 1 old x)) z = Some g"
    "I (width s - 1) g"
    by (auto simp: I_def upt_max_eq)
  from z(1) g(1) have "advect s old dens dt = Some g"
    by (simp add: advect_def)
  with g(2) show ?thesis
    unfolding I_def by blast
qed

text \<open>
  Claim C4. On grids of \<^verbatim>\<open>width\<close> by \<^verbatim>\<open>height\<close> cells, \<^verbatim>\<open>advect\<close> returns, and
  every cell of the density it leaves is the sum, over the interior source cells in
  the order of the two loops, of the shares \<open>advect_share\<close> gives it: nothing of the
  density on entry is left (it is zeroed first), a source cell holding at most 1
  gives nothing, and the shares of different sources are added, not overwritten.
  \<open>advect_share\<close> is the specification's formula: the velocity is added, the
  destination is clamped and split with the bilinear weights.
\<close>

theorem advect_accumulates:
  assumes "wf_grid (width s) (height s) dens" and "wf_grid (width s) (height s) old"
    and "wf_grid (width s) (height s) (xVelocity s)"
    and "wf_grid (width s) (height s) (yVelocity s)"
  shows "\<exists>g. advect s old dens dt = Some g \<and> wf_grid (width s) (height s) g \<and>
     (\<forall>i j. i < width s \<longrightarrow> j < height s \<longrightarrow>
        g ! i ! j = (\<Sum>x\<leftarrow>[1..<width s - 1]. \<Sum>y\<leftarrow>[1..<height s - 1]. advect_share s old x y i j))"
  by (rule advect_char [OF assms])

lemma wf_windy:
  "wf_grid (width windy_system) (height windy_system) (density (sample_cloud3 0))"
  "wf_grid (width windy_system) (height windy_system) (xVelocity windy_system)"
  "wf_grid (width windy_system) (height windy_system) (yVelocity windy_system)"
  by (simp_all add: wf_grid_def windy_system_def sample_system_def sample_cloud3_def)

theorem advect_accumulates_witness:
  "wf_grid (width windy_system) (height windy_system) (density (sample_cloud3 0)) \<and>
   wf_grid (width windy_system) (height windy_system) (xVelocity windy_system) \<and>
   wf_grid (width windy_system) (height windy_system) (yVelocity windy_system) \<and>
   cell_of (advect windy_system (density (sample_cloud3 0)) (density (sample_cloud3 0)) 1) 2 1
     = Some (5/8) \<and>
   cell_of (advect windy_system (density (sample_cloud3 0)) (density (sample_cloud3 0)) 1) 0 0
     = Some 0"
proof -
  from advect_accumulates [OF wf_windy(1) wf_windy(1) wf_windy(2,3), of 1] obtain g where
    g: "advect windy_system (density (sample_cloud3 0)) (density (sample_cloud3 0)) 1 = Some g"
    "wf_grid (width windy_system) (height windy_system) g"
    and cells: "\<And>i j. i < width windy_system \<Longrightarrow> j < height windy_system \<Longrightarrow>
        g ! i ! j = (\<Sum>x\<leftarrow>[1..<width windy_system - 1]. \<Sum>y\<leftarrow>[1..<height windy_system - 1].
           advect_share windy_system (density (sample_cloud3 0)) x y i j)"
    by blast
  have w: "width windy_system = 3" "height windy_system = 3"
    by (simp_all add: windy_system_def sample_system_def)
  have l: "[1..<width windy_system - 1] = [1]" "[1..<height windy_system - 1] = [1]"
    by (simp_all add: w upt_conv_Cons)
  have sh: "advect_share windy_system (density (sample_cloud3 0)) (Suc 0) (Suc 0) 2 (Suc 0) = 5/8"
    "advect_share windy_system (density (sample_cloud3 0)) (Suc 0) (Suc 0) 0 0 = 0"
    by (simp_all add: advect_share_def windy_system_def sample_system_def sample_cloud3_def Let_def)
  have "g ! 2 ! 1 = (\<Sum>x\<leftarrow>[1..<width windy_system - 1]. \<Sum>y\<leftarrow>[1..<height windy_system - 1].
           advect_share windy_system (density (sample_cloud3 0)) x y 2 1)"
    by (rule cells) (simp_all add: w)
  then have "g ! 2 ! 1 = 5/8"
    unfolding l by (simp add: sh)
  moreover have "g ! 0 ! 0 = (\<Sum>x\<leftarrow>[1..<width windy_system - 1]. \<Sum>y\<leftarrow>[1..<height windy_system - 1].
           advect_share windy_system (density (sample_cloud3 0)) x y 0 0)"
    by (rule cells) (simp_all add: w)
  then have "g ! 0 ! 0 = 0"
    unfolding l by (simp add: sh)
  moreover have "rd g 2 1 = Some (g ! 2 ! 1)" "rd g 0 0 = Some (g ! 0 ! 0)"
    using g(2) by (simp_all add: rd_wf w)
  ultimately show ?thesis
    using wf_windy g(1) by (simp add: cell_of_def)
qed

text \<open>
  Claim C5. Whatever the velocities, \<^verbatim>\<open>advect\<close> on grids of \<^verbatim>\<open>width\<close> by
  \<^verbatim>\<open>height\<close> cells returns: no read or write leaves a grid (an access outside
  would make the embedding return \<open>None\<close>). For any value \<open>v\<close> of
  \<open>x + dt * velocity\<close> and any \<open>n\<close> of at least 2 (the loops run for at least 3),
  the clamped coordinate is in \<open>[0.5, n - 1.5]\<close>, \<open>x0\<close> in \<open>[0, n - 2]\<close> and \<open>x1\<close>
  in \<open>[1, n - 1]\<close>.
\<close>

theorem advect_in_bounds:
  assumes "wf_grid (width s) (height s) dens" and "wf_grid (width s) (height s) old"
    and "wf_grid (width s) (height s) (xVelocity s)"
    and "wf_grid (width s) (height s) (yVelocity s)"
  shows "(\<exists>g. advect s old dens dt = Some g) \<and>
     (2 \<le> n \<longrightarrow>
        (let d = clamp_coord n v; x0 = c_trunc d; x1 = x0 + 1
         in 1/2 \<le> d \<and> d \<le> real n - 3/2 \<and>
            0 \<le> x0 \<and> x0 \<le> int n - 2 \<and> 1 \<le> x1 \<and> x1 \<le> int n - 1))"
proof -
  from advect_char [OF assms, of dt] have "\<exists>g. advect s old dens dt = Some g" by blast
  moreover have "(let d = clamp_coord n v; x0 = c_trunc d; x1 = x0 + 1
         in 1/2 \<le> d \<and> d \<le> real n - 3/2 \<and>
            0 \<le> x0 \<and> x0 \<le> int n - 2 \<and> 1 \<le> x1 \<and> x1 \<le> int n - 1)" if "2 \<le> n"
    using clamp_coord_range(2,3) [OF that, of v]
      c_trunc_range(2,3) [OF clamp_coord_range(2,3) [OF that, of v]]
    by (simp add: Let_def)
  ultimately show ?thesis by blast
qed

theorem advect_in_bounds_witness:
  "wf_grid (width windy_system) (height windy_system) (density (sample_cloud3 0)) \<and>
   wf_grid (width windy_system) (height windy_system) (xVelocity windy_system) \<and>
   wf_grid (width windy_system) (height windy_system) (yVelocity windy_system) \<and>
   (\<exists>g. advect windy_system (density (sample_cloud3 0)) (density (sample_cloud3 0)) 1 = Some g) \<and>
   c_trunc (clamp_coord 3 (10 ^ 30)) = 1 \<and> c_trunc (clamp_coord 3 (- (10 ^ 30))) = 0"
proof -
  have "c_trunc (clamp_coord 3 (10 ^ 30)) = 1" "c_trunc (clamp_coord 3 (- (10 ^ 30))) = 0"
    by (simp_all add: clamp_coord_def c_trunc_def)
  with advect_in_bounds [OF wf_windy(1) wf_windy(1) wf_windy(2,3), of 1 3 "10 ^ 30"] wf_windy
  show ?thesis by blast
qed

section \<open>The velocity field\<close>

lemma velocity_cell_char:
  assumes k: "width t = width s" "height t = height s" "noiseScale t = noiseScale s"
    and wf: "wf_grid (width s) (height s) (xVelocity t)" "wf_grid (width s) (height s) (yVelocity t)"
    and b: "x < width s" "y < height s"
  shows "velocity_cell noise x y t = Some (t\<lparr>
      xVelocity := (xVelocity t)[x := (xVelocity t ! x)[y :=
        (potential_at noise s (int x - 1) (int y + 1) - potential_at noise s (int x - 1) (int y - 1)) / 2]],
      yVelocity := (yVelocity t)[x := (yVelocity t ! x)[y :=
        (potential_at noise s (int x - 1) (int y - 1) - potential_at noise s (int x + 1) (int y - 1)) / 2]]\<rparr>)"
  by (simp add: velocity_cell_def Let_def k wr_wf [OF wf(1) b] wr_wf [OF wf(2) b] potential_at_def)

lemma CreateVelocityField_char:
  assumes wfx: "wf_grid (width s) (height s) (xVelocity s)"
    and wfy: "wf_grid (width s) (height s) (yVelocity s)"
  shows "\<exists>xv yv. CreateVelocityField noise s = Some (s\<lparr>xVelocity := xv, yVelocity := yv\<rparr>) \<and>
     wf_grid (width s) (height s) xv \<and> wf_grid (width s) (height s) yv \<and>
     (\<forall>x y. x < width s \<longrightarrow> y < height s \<longrightarrow>
        xv ! x ! y =
          (potential_at noise s (int x - 1) (int y + 1) - potential_at noise s (int x - 1) (int y - 1)) / 2 \<and>
        yv ! x ! y =
          (potential_at noise s (int x - 1) (int y - 1) - potential_at noise s (int x + 1) (int y - 1)) / 2)"
proof -
  define vx where "vx x y =
    (potential_at noise s (int x - 1) (int y + 1) - potential_at noise s (int x - 1) (int y - 1)) / 2" for x y
  define vy where "vy x y =
    (potential_at noise s (int x - 1) (int y - 1) - potential_at noise s (int x + 1) (int y - 1)) / 2" for x y
  define I where "I m t \<longleftrightarrow> (\<exists>xv yv. t = s\<lparr>xVelocity := xv, yVelocity := yv\<rparr> \<and>
     wf_grid (width s) (height s) xv \<and> wf_grid (width s) (height s) yv \<and>
     (\<forall>x y. x < m \<longrightarrow> y < height s \<longrightarrow> xv ! x ! y = vx x y \<and> yv ! x ! y = vy x y))" for m t
  have init: "I 0 s"
    unfolding I_def using wfx wfy
    by (intro exI [of _ "xVelocity s"] exI [of _ "yVelocity s"]) simp
  have step: "\<exists>t'. for_each [0..<height s] (velocity_cell noise m) t = Some t' \<and> I (Suc m) t'"
    if m: "0 \<le> m" "m < width s" and inv: "I m t" for m t
  proof -
    define J where "J n u \<longleftrightarrow> (\<exists>xv yv. u = s\<lparr>xVelocity := xv, yVelocity := yv\<rparr> \<and>
       wf_grid (width s) (height s) xv \<and> wf_grid (width s) (height s) yv \<and>
       (\<forall>x y. x < m \<longrightarrow> y < height s \<longrightarrow> xv ! x ! y = vx x y \<and> yv ! x ! y = vy x y) \<and>
       (\<forall>y. y < n \<longrightarrow> xv ! m ! y = vx m y \<and> yv ! m ! y = vy m y))" for n u
    have jinit: "J 0 t" using inv by (simp add: J_def I_def)
    have jstep: "\<exists>u'. velocity_cell noise m n u = Some u' \<and> J (Suc n) u'"
      if n: "0 \<le> n" "n < height s" and j: "J n u" for n u
    proof -
      from j obtain xv yv where u: "u = s\<lparr>xVelocity := xv, yVelocity := yv\<rparr>"
        and wfu: "wf_grid (width s) (height s) xv" "wf_grid (width s) (height s) yv"
        and rows: "\<And>x y. x < m \<Longrightarrow> y < height s \<Longrightarrow> xv ! x ! y = vx x y \<and> yv ! x ! y = vy x y"
        and row: "\<And>y. y < n \<Longrightarrow> xv ! m ! y = vx m y \<and> yv ! m ! y = vy m y"
        unfolding J_def by blast
      define xv' yv' where "xv' = xv[m := (xv ! m)[n := vx m n]]"
        and "yv' = yv[m := (yv ! m)[n := vy m n]]"
      have "velocity_cell noise m n u = Some (u\<lparr>xVelocity := (xVelocity u)[m := (xVelocity u ! m)[n := vx m n]],
          yVelocity := (yVelocity u)[m := (yVelocity u ! m)[n := vy m n]]\<rparr>)"
        unfolding vx_def vy_def
        by (rule velocity_cell_char) (simp_all add: u wfu m n)
      then have run: "velocity_cell noise m n u = Some (s\<lparr>xVelocity := xv', yVelocity := yv'\<rparr>)"
        by (simp add: u xv'_def yv'_def)
      have wf': "wf_grid (width s) (height s) xv'" "wf_grid (width s) (height s) yv'"
        unfolding xv'_def yv'_def by (rule wf_update [OF wfu(1)], rule wf_update [OF wfu(2)])
      have nth: "xv' ! x ! y = (if x = m \<and> y = n then vx m n else xv ! x ! y)"
        "yv' ! x ! y = (if x = m \<and> y = n then vy m n else yv ! x ! y)"
        if "x < width s" "y < height s" for x y
        unfolding xv'_def yv'_def
        by (rule nth_update [OF wfu(1) that], rule nth_update [OF wfu(2) that])
      have r1: "xv' ! x ! y = vx x y \<and> yv' ! x ! y = vy x y" if "x < m" "y < height s" for x y
        using nth [of x y] rows [OF that] that m by simp
      have r2: "xv' ! m ! y = vx m y \<and> yv' ! m ! y = vy m y" if "y < Suc n" for y
        using nth [of m y] row [of y] that m n by (cases "y = n") simp_all
      have "J (Suc n) (s\<lparr>xVelocity := xv', yVelocity := yv'\<rparr>)"
        unfolding J_def using wf' r1 r2 by blast
      with run show ?thesis by blast
    qed
    from for_each_invariant [of J 0 t "height s" "velocity_cell noise m", OF jinit jstep]
    obtain t' where t': "for_each [0..<height s] (velocity_cell noise m) t = Some t'" "J (height s) t'"
      by auto
    from t'(2) obtain xv yv where u: "t' = s\<lparr>xVelocity := xv, yVelocity := yv\<rparr>"
        and wfu: "wf_grid (width s) (height s) xv" "wf_grid (width s) (height s) yv"
        and rows: "\<And>x y. x < m \<Longrightarrow> y < height s \<Longrightarrow> xv ! x ! y = vx x y \<and> yv ! x ! y = vy x y"
        and row: "\<And>y. y < height s \<Longrightarrow> xv ! m ! y = vx m y \<and> yv ! m ! y = vy m y"
      unfolding J_def by blast
    have "xv ! x ! y = vx x y \<and> yv ! x ! y = vy x y" if "x < Suc m" "y < height s" for x y
      using rows [of x y] row [of y] that by (cases "x = m") simp_all
    with u wfu have "I (Suc m) t'"
      unfolding I_def by blast
    with t'(1) show ?thesis by blast
  qed
  from for_each_invariant [of I 0 s "width s" "\<lambda>x. for_each [0..<height s] (velocity_cell noise x)",
      OF init step]
  obtain t where "CreateVelocityField noise s = Some t" "I (width s) t"
    unfolding CreateVelocityField_def by auto
  then show ?thesis
    unfolding I_def vx_def vy_def by blast
qed


text \<open>
  Claim C1, as amended. On velocity grids of \<^verbatim>\<open>width\<close> by \<^verbatim>\<open>height\<close> cells the
  generator returns and changes the two velocity grids only. For every cell \<open>(x, y)\<close>
  it samples the potential at three points, \<open>(x-1, y-1)\<close>, \<open>(x+1, y-1)\<close> and
  \<open>(x-1, y+1)\<close>, and sets \<open>xVelocity[x][y] = (noise(x-1, y+1) - noise(x-1, y-1)) / 2\<close>,
  a difference along y, and \<open>yVelocity[x][y] = (noise(x-1, y-1) - noise(x+1, y-1)) / 2\<close>,
  a reversed difference along x: the curl of the potential.
\<close>

theorem CreateVelocityField_curl:
  assumes "wf_grid (width s) (height s) (xVelocity s)"
    and "wf_grid (width s) (height s) (yVelocity s)"
  shows "\<exists>xv yv. CreateVelocityField noise s = Some (s\<lparr>xVelocity := xv, yVelocity := yv\<rparr>) \<and>
     wf_grid (width s) (height s) xv \<and> wf_grid (width s) (height s) yv \<and>
     (\<forall>x y. x < width s \<longrightarrow> y < height s \<longrightarrow>
        xv ! x ! y =
          (potential_at noise s (int x - 1) (int y + 1) - potential_at noise s (int x - 1) (int y - 1)) / 2 \<and>
        yv ! x ! y =
          (potential_at noise s (int x - 1) (int y - 1) - potential_at noise s (int x + 1) (int y - 1)) / 2)"
  by (rule CreateVelocityField_char [OF assms])

lemma wf_sample_system:
  "wf_grid (width sample_system) (height sample_system) (xVelocity sample_system)"
  "wf_grid (width sample_system) (height sample_system) (yVelocity sample_system)"
  by (simp_all add: wf_grid_def sample_system_def)

lemma ramp_velocity:
  "cell_of (map_option xVelocity (CreateVelocityField ramp_noise sample_system)) 1 1 = Some (5/3)"
  "cell_of (map_option yVelocity (CreateVelocityField ramp_noise sample_system)) 1 1 = Some 0"
proof -
  from CreateVelocityField_char [OF wf_sample_system, of ramp_noise] obtain xv yv where
    run: "CreateVelocityField ramp_noise sample_system =
        Some (sample_system\<lparr>xVelocity := xv, yVelocity := yv\<rparr>)"
    and wf: "wf_grid (width sample_system) (height sample_system) xv"
      "wf_grid (width sample_system) (height sample_system) yv"
    and v: "\<And>x y. x < width sample_system \<Longrightarrow> y < height sample_system \<Longrightarrow>
        xv ! x ! y = (potential_at ramp_noise sample_system (int x - 1) (int y + 1) -
                      potential_at ramp_noise sample_system (int x - 1) (int y - 1)) / 2 \<and>
        yv ! x ! y = (potential_at ramp_noise sample_system (int x - 1) (int y - 1) -
                      potential_at ramp_noise sample_system (int x + 1) (int y - 1)) / 2"
    by blast
  have w: "width sample_system = 3" "height sample_system = 3" "noiseScale sample_system = 5"
    by (simp_all add: sample_system_def)
  have "xv ! 1 ! 1 = 5/3" "yv ! 1 ! 1 = 0"
    using v [of 1 1] by (simp_all add: w potential_at_def ramp_noise_def)
  moreover have "rd xv 1 1 = Some (xv ! 1 ! 1)" "rd yv 1 1 = Some (yv ! 1 ! 1)"
    using wf by (simp_all add: rd_wf w)
  ultimately show
    "cell_of (map_option xVelocity (CreateVelocityField ramp_noise sample_system)) 1 1 = Some (5/3)"
    "cell_of (map_option yVelocity (CreateVelocityField ramp_noise sample_system)) 1 1 = Some 0"
    by (simp_all add: run cell_of_def)
qed

theorem CreateVelocityField_curl_witness:
  "wf_grid (width sample_system) (height sample_system) (xVelocity sample_system) \<and>
   wf_grid (width sample_system) (height sample_system) (yVelocity sample_system) \<and>
   (\<exists>xv yv. CreateVelocityField ramp_noise sample_system =
        Some (sample_system\<lparr>xVelocity := xv, yVelocity := yv\<rparr>) \<and>
      xv ! 1 ! 1 = 5/3 \<and> yv ! 1 ! 1 = 0)"
proof -
  from CreateVelocityField_curl [OF wf_sample_system, of ramp_noise] obtain xv yv where
    run: "CreateVelocityField ramp_noise sample_system =
        Some (sample_system\<lparr>xVelocity := xv, yVelocity := yv\<rparr>)"
    and v: "\<And>x y. x < width sample_system \<Longrightarrow> y < height sample_system \<Longrightarrow>
        xv ! x ! y = (potential_at ramp_noise sample_system (int x - 1) (int y + 1) -
                      potential_at ramp_noise sample_system (int x - 1) (int y - 1)) / 2 \<and>
        yv ! x ! y = (potential_at ramp_noise sample_system (int x - 1) (int y - 1) -
                      potential_at ramp_noise sample_system (int x + 1) (int y - 1)) / 2"
    by blast
  have w: "width sample_system = 3" "height sample_system = 3" "noiseScale sample_system = 5"
    by (simp_all add: sample_system_def)
  have "xv ! 1 ! 1 = 5/3" "yv ! 1 ! 1 = 0"
    using v [of 1 1] by (simp_all add: w potential_at_def ramp_noise_def)
  with run wf_sample_system show ?thesis by blast
qed

text \<open>
  Claim C1 as stated fails. For a potential that grows along y only, the claimed
  \<open>(noise(x+1, y) - noise(x-1, y)) / 2\<close> is 0 at cell (1,1), and the generator
  sets \<open>xVelocity[1][1]\<close> to 5/3.
\<close>

theorem velocity_x_difference_counterexample:
  "cell_of (map_option xVelocity (CreateVelocityField ramp_noise sample_system)) 1 1 = Some (5/3) \<and>
   (potential_at ramp_noise sample_system 2 1 - potential_at ramp_noise sample_system 0 1) / 2 = 0"
  using ramp_velocity(1) by (simp add: potential_at_def ramp_noise_def)

section \<open>Shifting a grid after a rebase\<close>














text \<open>
  On a window that is higher than wide the horizontal branches leave the grid: in a
  window of width 3 and height 6 the x index reaches \<open>0 + 6*2/3 = 4\<close>.
\<close>

lemma Run_shift_tall_window:
  "Run_shift (sample_system\<lparr>height := 6\<rparr>)
     ((impulse_cloud 2)\<lparr>density := replicate 3 (replicate 6 1)\<rparr>) = None"
  by (simp add: Run_shift_def sample_system_def impulse_cloud_def shift_left_cell_def
      rd_def wr_def upt_conv_Cons)

end
